theory Spec2Isabelle
  imports Main "HOL-Library.Word" "HOL-Library.AList"
begin

unbundle bit_operations_syntax

section \<open>Bytes, strings and the hex codec\<close>

text \<open>
  A Go \<^verbatim>\<open>byte\<close> is an 8-bit word and a Go \<^verbatim>\<open>string\<close> is a sequence of
  bytes, here a \<^typ>\<open>string\<close> (a list of 8-bit characters). A \<^verbatim>\<open>[16]byte\<close> array
  is a list of bytes; where a property is about arrays, its length is stated as 16.
\<close>

type_synonym byte = "8 word"

text \<open>
  \<^verbatim>\<open>encoding/hex\<close> of the Go standard library (Go 1.13, the version of go.mod):
  \<^verbatim>\<open>hextable\<close>, \<^verbatim>\<open>EncodeToString\<close>, \<^verbatim>\<open>fromHexChar\<close>, \<^verbatim>\<open>DecodeString\<close>.
  Both indices into \<open>hextable\<close> are below 16, so the reads are in range.
\<close>

definition hextable :: string where
  "hextable = ''0123456789abcdef''"

fun hex_EncodeToString :: "byte list \<Rightarrow> string" where
  "hex_EncodeToString [] = []"
| "hex_EncodeToString (v # vs) =
     hextable ! unat (drop_bit 4 v) # hextable ! unat (v AND 15) # hex_EncodeToString vs"

definition fromHexChar :: "char \<Rightarrow> byte option" where
  "fromHexChar c =
     (let n = (of_char c :: nat) in
      if 48 \<le> n \<and> n \<le> 57 then Some (of_nat (n - 48))
      else if 97 \<le> n \<and> n \<le> 102 then Some (of_nat (n - 97 + 10))
      else if 65 \<le> n \<and> n \<le> 70 then Some (of_nat (n - 65 + 10))
      else None)"

datatype hex_error = InvalidByteError char | ErrLength

text \<open>
  \<^verbatim>\<open>hex.DecodeString\<close>: two characters make one byte; the first character that is not a
  hex digit is reported, and an odd length is reported only when every character before
  the end is a hex digit.
\<close>

fun hex_DecodeString :: "string \<Rightarrow> hex_error + byte list" where
  "hex_DecodeString [] = Inr []"
| "hex_DecodeString [c] =
     (case fromHexChar c of None \<Rightarrow> Inl (InvalidByteError c) | Some _ \<Rightarrow> Inl ErrLength)"
| "hex_DecodeString (p # q # cs) =
     (case fromHexChar p of
        None \<Rightarrow> Inl (InvalidByteError p)
      | Some a \<Rightarrow>
          (case fromHexChar q of
             None \<Rightarrow> Inl (InvalidByteError q)
           | Some b \<Rightarrow>
               (case hex_DecodeString cs of
                  Inl e \<Rightarrow> Inl e
                | Inr bs \<Rightarrow> Inr ((push_bit 4 a OR b) # bs))))"

text \<open>
  \<^verbatim>\<open>var a [16]byte; copy(a[:], s)\<close>: the first 16 bytes of \<open>s\<close>, the rest of the
  array keeping its zero value.
\<close>

definition copy16 :: "byte list \<Rightarrow> byte list" where
  "copy16 s = take 16 s @ replicate (16 - length s) 0"

section \<open>Errors\<close>

text \<open>
  The errors of containerd's \<^verbatim>\<open>errdefs\<close> (what \<^verbatim>\<open>ctrderr.IsNotFound\<close> inspects), and
  the errors the repository returns: the constructors of its own \<^verbatim>\<open>errdefs\<close> package
  with the resource and name they are given, \<^verbatim>\<open>runtime.Errorf\<close> with its message
  prefix, a backend error returned as it came (\<^verbatim>\<open>return err\<close>), and a Go panic.
\<close>

datatype ctrd_error =
  CtrdNotFound | CtrdAlreadyExists | CtrdFailedPrecondition | CtrdInvalidArgument
  | CtrdUnavailable | CtrdUnknown

datatype error =
  NotFound string string
  | AlreadyExists string string
  | InvalidArgument string
  | NotImplemented
  | RuntimeError string
  | Backend ctrd_error
  | Panic

definition ctrderr_IsNotFound :: "ctrd_error \<Rightarrow> bool" where
  "ctrderr_IsNotFound e = (e = CtrdNotFound)"

text \<open>\<^verbatim>\<open>errors.Is(err, errdefs.ErrNotFound)\<close> for the repository's own sentinel.\<close>

fun is_ErrNotFound :: "error \<Rightarrow> bool" where
  "is_ErrNotFound (NotFound _ _) = True"
| "is_ErrNotFound _ = False"

section \<open>The identity scheme\<close>

text \<open>
  \<^verbatim>\<open>strings.Index(s, "-")\<close> is the index of the first delimiter, or -1. A slice
  expression \<^verbatim>\<open>s[:i]\<close> or \<^verbatim>\<open>s[i:]\<close> panics unless \<open>0 \<le> i \<le> len(s)\<close>.
\<close>

fun strings_Index :: "string \<Rightarrow> char \<Rightarrow> int" where
  "strings_Index [] c = -1"
| "strings_Index (x # xs) c =
     (if x = c then 0
      else (let i = strings_Index xs c in if i < 0 then -1 else i + 1))"

definition slice_to :: "string \<Rightarrow> int \<Rightarrow> string option" where
  "slice_to s i = (if 0 \<le> i \<and> i \<le> int (length s) then Some (take (nat i) s) else None)"

definition slice_from :: "string \<Rightarrow> int \<Rightarrow> string option" where
  "slice_from s i = (if 0 \<le> i \<and> i \<le> int (length s) then Some (drop (nat i) s) else None)"

definition splitCtrdID :: "string \<Rightarrow> error + (byte list \<times> byte list)" where
  "splitCtrdID ctrdID =
     (let idx = strings_Index ctrdID CHR ''-'' in
      case slice_to ctrdID idx of
        None \<Rightarrow> Inl Panic
      | Some pre \<Rightarrow>
          (case hex_DecodeString pre of
             Inl e \<Rightarrow> Inl (InvalidArgument ctrdID)
           | Inr s \<Rightarrow>
               (let dom = copy16 s in
                case slice_from ctrdID (idx + 1) of
                  None \<Rightarrow> Inl Panic
                | Some post \<Rightarrow>
                    (case hex_DecodeString post of
                       Inl e \<Rightarrow> Inl (InvalidArgument ctrdID)
                     | Inr s' \<Rightarrow> Inr (dom, copy16 s')))))"

definition composeCtrdID :: "byte list \<Rightarrow> byte list \<Rightarrow> string" where
  "composeCtrdID domain ident = hex_EncodeToString domain @ ''-'' @ hex_EncodeToString ident"

text \<open>
  The words of the specification for a well-formed key: exactly two groups of 32 hex
  digits (16 bytes each) with one delimiter between them.
\<close>

definition is_hex_digit :: "char \<Rightarrow> bool" where
  "is_hex_digit c = (fromHexChar c \<noteq> None)"

definition two_hex_groups :: "string \<Rightarrow> bool" where
  "two_hex_groups key =
     (length key = 65 \<and> key ! 32 = CHR ''-'' \<and>
      list_all is_hex_digit (take 32 key) \<and> list_all is_hex_digit (drop 33 key))"

text \<open>
  What \<open>splitCtrdID\<close> looks at: the text before the first delimiter and the text after
  it, each accepted when it is an even number of hex digits.
\<close>

definition group1 :: "string \<Rightarrow> string" where
  "group1 key = takeWhile (\<lambda>c. c \<noteq> CHR ''-'') key"

definition group2 :: "string \<Rightarrow> string" where
  "group2 key = drop 1 (dropWhile (\<lambda>c. c \<noteq> CHR ''-'') key)"

definition hex_string :: "string \<Rightarrow> bool" where
  "hex_string s = (even (length s) \<and> list_all is_hex_digit s)"

definition hex_bytes :: "string \<Rightarrow> byte list" where
  "hex_bytes s = (case hex_DecodeString s of Inl e \<Rightarrow> [] | Inr bs \<Rightarrow> bs)"

section \<open>Decimal numbers of \<^verbatim>\<open>strconv\<close>\<close>

text \<open>
  \<^verbatim>\<open>strconv.FormatUint(n, 10)\<close> and \<^verbatim>\<open>strconv.ParseUint(s, 10, 32)\<close>: the latter
  accepts a non-empty string of decimal digits whose value fits 32 bits (no sign, no
  underscore in base 10).
\<close>

definition digit_char :: "nat \<Rightarrow> char" where
  "digit_char n = char_of (48 + n)"

fun strconv_FormatUint :: "nat \<Rightarrow> string" where
  "strconv_FormatUint n =
     (if n < 10 then [digit_char n]
      else strconv_FormatUint (n div 10) @ [digit_char (n mod 10)])"

declare strconv_FormatUint.simps [simp del]

definition digit_val :: "char \<Rightarrow> nat option" where
  "digit_val c =
     (let n = (of_char c :: nat) in if 48 \<le> n \<and> n \<le> 57 then Some (n - 48) else None)"

fun parse_digits :: "nat \<Rightarrow> string \<Rightarrow> nat option" where
  "parse_digits n [] = Some n"
| "parse_digits n (c # cs) =
     (case digit_val c of None \<Rightarrow> None | Some d \<Rightarrow> parse_digits (n * 10 + d) cs)"

definition strconv_ParseUint32 :: "string \<Rightarrow> 32 word option" where
  "strconv_ParseUint32 s =
     (if s = [] then None
      else (case parse_digits 0 s of
              None \<Rightarrow> None
            | Some n \<Rightarrow> if n < 2 ^ 32 then Some (of_nat n) else None))"

section \<open>The containerd backend\<close>

text \<open>
  The daemon behind \<^verbatim>\<open>ctrdRun.client\<close> is a store: containers by their ID, each with
  its labels, image, OCI spec and at most one task; the snapshots in the order a walk
  visits them; and, per call of the client API, whether the daemon fails to answer it
  (\<open>fails\<close>). A \<^verbatim>\<open>containerd.Container\<close> or \<^verbatim>\<open>containerd.Task\<close> value is a handle
  holding the container's ID, so every call on it reads the store again.
\<close>

record process_spec =
  Args :: "string list"
  Cwd :: string

record oci_spec =
  Process :: "process_spec option"
  Linux :: "unit option"

record ImageConfig =
  Entrypoint :: "string list"
  Cmd :: "string list"
  WorkingDir :: string

text \<open>
  Modelled from the spec: the image type of \<^verbatim>\<open>image.go\<close>, which is not among the
  sources: a backend handle (\<open>ctrdImage\<close>, the image's name) exposing the decoded OCI
  config that \<^verbatim>\<open>Config()\<close> returns.
\<close>

record image =
  ctrdImage :: string
  config :: ImageConfig

datatype task_status = Created | Running | Stopped | Paused

record ctrd_task =
  t_status :: task_status
  t_mounts :: "string list"
  t_execs :: "(string \<times> process_spec) list"
  t_started :: "string list"

record ctrd_container =
  c_labels :: "string \<rightharpoonup> string"
  c_image :: image
  c_spec :: oci_spec
  c_runtime :: string
  c_task :: "ctrd_task option"

record snapshot_info =
  Name :: string
  Parent :: string

datatype call =
  LoadContainerCall | NewContainerCall | LabelsCall | SetLabelsCall | ImageCall | SpecCall
  | ContainerDeleteCall | TaskCall | NewTaskCall | StatusCall | WaitCall | KillCall
  | TaskDeleteCall | ExecCall | StartCall | WalkCall | SnapshotCall | ImageConfigCall

text \<open>
  Modelled from the spec: the snapshot store of \<^verbatim>\<open>snapshot.go\<close>, which is not among
  the sources: per composite key the chain of its snapshots (\<open>chain\<close>) and the name of
  its active snapshot (\<open>active\<close>). \<open>start_error\<close> is what the daemon answers when a
  process with the given argv is started.
\<close>

record backend =
  containers :: "string \<rightharpoonup> ctrd_container"
  snapshots :: "snapshot_info list"
  chain :: "string \<Rightarrow> string list"
  active :: "string \<rightharpoonup> string"
  start_error :: "string list \<Rightarrow> ctrd_error option"
  fails :: "call \<Rightarrow> bool"

definition no_faults :: "call \<Rightarrow> bool" where
  "no_faults = (\<lambda>c. False)"

text \<open>A read of a Go map of strings: the empty string for a missing key.\<close>

definition label_of :: "(string \<rightharpoonup> string) \<Rightarrow> string \<Rightarrow> string" where
  "label_of m k = (case m k of None \<Rightarrow> [] | Some v \<Rightarrow> v)"

subsection \<open>Client calls\<close>

definition client_LoadContainer :: "backend \<Rightarrow> string \<Rightarrow> ctrd_error + string" where
  "client_LoadContainer s ident =
     (if fails s LoadContainerCall then Inl CtrdUnavailable
      else (case containers s ident of None \<Rightarrow> Inl CtrdNotFound | Some c \<Rightarrow> Inr ident))"

definition client_NewContainer ::
  "backend \<Rightarrow> string \<Rightarrow> image \<Rightarrow> oci_spec \<Rightarrow> string \<Rightarrow> (string \<rightharpoonup> string) \<Rightarrow>
     (ctrd_error + string) \<times> backend" where
  "client_NewContainer s ident img sp rt labels =
     (if fails s NewContainerCall then (Inl CtrdUnavailable, s)
      else (case containers s ident of
              Some c \<Rightarrow> (Inl CtrdAlreadyExists, s)
            | None \<Rightarrow>
                (Inr ident,
                 s\<lparr>containers := (containers s)(ident \<mapsto>
                     \<lparr>c_labels = labels, c_image = img, c_spec = sp, c_runtime = rt,
                      c_task = None\<rparr>)\<rparr>)))"

definition container_Labels :: "backend \<Rightarrow> string \<Rightarrow> ctrd_error + (string \<rightharpoonup> string)" where
  "container_Labels s h =
     (if fails s LabelsCall then Inl CtrdUnavailable
      else (case containers s h of None \<Rightarrow> Inl CtrdNotFound | Some c \<Rightarrow> Inr (c_labels c)))"

text \<open>
  \<^verbatim>\<open>SetLabels\<close> updates the labels it is given and leaves every other label of the
  container alone (containerd masks the update to the keys of its argument).
\<close>

definition container_SetLabels ::
  "backend \<Rightarrow> string \<Rightarrow> (string \<rightharpoonup> string) \<Rightarrow> (ctrd_error + (string \<rightharpoonup> string)) \<times> backend" where
  "container_SetLabels s h labels =
     (if fails s SetLabelsCall then (Inl CtrdUnavailable, s)
      else (case containers s h of
              None \<Rightarrow> (Inl CtrdNotFound, s)
            | Some c \<Rightarrow>
                (Inr (c_labels c ++ labels),
                 s\<lparr>containers := (containers s)(h \<mapsto> c\<lparr>c_labels := c_labels c ++ labels\<rparr>)\<rparr>)))"

definition container_Image :: "backend \<Rightarrow> string \<Rightarrow> ctrd_error + image" where
  "container_Image s h =
     (if fails s ImageCall then Inl CtrdUnavailable
      else (case containers s h of None \<Rightarrow> Inl CtrdNotFound | Some c \<Rightarrow> Inr (c_image c)))"

definition container_Spec :: "backend \<Rightarrow> string \<Rightarrow> ctrd_error + oci_spec" where
  "container_Spec s h =
     (if fails s SpecCall then Inl CtrdUnavailable
      else (case containers s h of None \<Rightarrow> Inl CtrdNotFound | Some c \<Rightarrow> Inr (c_spec c)))"

definition container_Task :: "backend \<Rightarrow> string \<Rightarrow> ctrd_error + string" where
  "container_Task s h =
     (if fails s TaskCall then Inl CtrdUnavailable
      else (case containers s h of
              None \<Rightarrow> Inl CtrdNotFound
            | Some c \<Rightarrow> (case c_task c of None \<Rightarrow> Inl CtrdNotFound | Some t \<Rightarrow> Inr h)))"

definition container_NewTask ::
  "backend \<Rightarrow> string \<Rightarrow> string list \<Rightarrow> (ctrd_error + string) \<times> backend" where
  "container_NewTask s h mounts =
     (if fails s NewTaskCall then (Inl CtrdUnavailable, s)
      else (case containers s h of
              None \<Rightarrow> (Inl CtrdNotFound, s)
            | Some c \<Rightarrow>
                (case c_task c of
                   Some t \<Rightarrow> (Inl CtrdAlreadyExists, s)
                 | None \<Rightarrow>
                     (Inr h,
                      s\<lparr>containers := (containers s)(h \<mapsto> c\<lparr>c_task :=
                          Some \<lparr>t_status = Created, t_mounts = mounts, t_execs = [],
                                t_started = []\<rparr>\<rparr>)\<rparr>))))"

text \<open>
  \<^verbatim>\<open>Container.Delete\<close> with \<^verbatim>\<open>WithSnapshotCleanup\<close>: refused while the container has
  a task, not-found when the container is gone. The option removes the rootfs snapshot a
  container was created with; \<open>Create\<close> below gives a container none, so the containers of
  this store carry no such snapshot and the option removes nothing.
\<close>

definition container_Delete :: "backend \<Rightarrow> string \<Rightarrow> (ctrd_error + unit) \<times> backend" where
  "container_Delete s h =
     (if fails s ContainerDeleteCall then (Inl CtrdUnavailable, s)
      else (case containers s h of
              None \<Rightarrow> (Inl CtrdNotFound, s)
            | Some c \<Rightarrow>
                (case c_task c of
                   Some t \<Rightarrow> (Inl CtrdFailedPrecondition, s)
                 | None \<Rightarrow> (Inr (), s\<lparr>containers := (containers s)(h := None)\<rparr>))))"

definition the_task :: "backend \<Rightarrow> string \<Rightarrow> ctrd_task option" where
  "the_task s h = (case containers s h of None \<Rightarrow> None | Some c \<Rightarrow> c_task c)"

definition set_task :: "backend \<Rightarrow> string \<Rightarrow> ctrd_task option \<Rightarrow> backend" where
  "set_task s h t =
     (case containers s h of
        None \<Rightarrow> s
      | Some c \<Rightarrow> s\<lparr>containers := (containers s)(h \<mapsto> c\<lparr>c_task := t\<rparr>)\<rparr>)"

definition task_Status :: "backend \<Rightarrow> string \<Rightarrow> ctrd_error + task_status" where
  "task_Status s h =
     (if fails s StatusCall then Inl CtrdUnavailable
      else (case the_task s h of None \<Rightarrow> Inl CtrdNotFound | Some t \<Rightarrow> Inr (t_status t)))"

definition task_Wait :: "backend \<Rightarrow> string \<Rightarrow> ctrd_error + unit" where
  "task_Wait s h =
     (if fails s WaitCall then Inl CtrdUnavailable
      else (case the_task s h of None \<Rightarrow> Inl CtrdNotFound | Some t \<Rightarrow> Inr ()))"

text \<open>\<^verbatim>\<open>Kill\<close> with SIGKILL: the task's process exits, the task is stopped.\<close>

definition task_Kill :: "backend \<Rightarrow> string \<Rightarrow> (ctrd_error + unit) \<times> backend" where
  "task_Kill s h =
     (if fails s KillCall then (Inl CtrdUnavailable, s)
      else (case the_task s h of
              None \<Rightarrow> (Inl CtrdNotFound, s)
            | Some t \<Rightarrow> (Inr (), set_task s h (Some (t\<lparr>t_status := Stopped\<rparr>)))))"

text \<open>\<^verbatim>\<open>Task.Delete\<close>: only a stopped task is deleted.\<close>

definition task_Delete :: "backend \<Rightarrow> string \<Rightarrow> (ctrd_error + unit) \<times> backend" where
  "task_Delete s h =
     (if fails s TaskDeleteCall then (Inl CtrdUnavailable, s)
      else (case the_task s h of
              None \<Rightarrow> (Inl CtrdNotFound, s)
            | Some t \<Rightarrow>
                if t_status t = Stopped then (Inr (), set_task s h None)
                else (Inl CtrdFailedPrecondition, s)))"

text \<open>
  \<^verbatim>\<open>Task.Exec\<close> registers a process under its exec ID; \<^verbatim>\<open>Process.Start\<close> starts it, or
  reports what \<open>start_error\<close> holds for its argv. A process handle is the container's ID
  and the exec ID.
\<close>

definition task_Exec ::
  "backend \<Rightarrow> string \<Rightarrow> string \<Rightarrow> process_spec \<Rightarrow> (ctrd_error + string \<times> string) \<times> backend" where
  "task_Exec s h execID procSpec =
     (if fails s ExecCall then (Inl CtrdUnavailable, s)
      else (case the_task s h of
              None \<Rightarrow> (Inl CtrdNotFound, s)
            | Some t \<Rightarrow>
                (Inr (h, execID),
                 set_task s h (Some (t\<lparr>t_execs := t_execs t @ [(execID, procSpec)]\<rparr>)))))"

definition process_Start :: "backend \<Rightarrow> string \<times> string \<Rightarrow> (ctrd_error + unit) \<times> backend" where
  "process_Start s p =
     (if fails s StartCall then (Inl CtrdUnavailable, s)
      else (case the_task s (fst p) of
              None \<Rightarrow> (Inl CtrdNotFound, s)
            | Some t \<Rightarrow>
                (case map_of (t_execs t) (snd p) of
                   None \<Rightarrow> (Inl CtrdNotFound, s)
                 | Some procSpec \<Rightarrow>
                     (case start_error s (Args procSpec) of
                        Some e \<Rightarrow> (Inl e, s)
                      | None \<Rightarrow>
                          (Inr (),
                           set_task s (fst p)
                             (Some (t\<lparr>t_status := Running,
                                      t_started := t_started t @ [snd p]\<rparr>)))))))"

definition snapshots_Walk :: "backend \<Rightarrow> ctrd_error + snapshot_info list" where
  "snapshots_Walk s = (if fails s WalkCall then Inl CtrdUnavailable else Inr (snapshots s))"

subsection \<open>Images and snapshots of the runtime\<close>

text \<open>
  Modelled from the spec: \<^verbatim>\<open>image.Config()\<close> of \<^verbatim>\<open>image.go\<close> (not among the sources)
  returns the decoded OCI config of the image, or an error when the backend cannot
  provide it.
\<close>

definition image_Config :: "backend \<Rightarrow> image \<Rightarrow> ctrd_error + ImageConfig" where
  "image_Config s img = (if fails s ImageConfigCall then Inl CtrdUnavailable else Inr (config img))"

text \<open>
  Modelled from the spec: \<^verbatim>\<open>getActiveSnapshot\<close>, \<^verbatim>\<open>getActiveSnapMounts\<close> and
  \<^verbatim>\<open>deleteContainerSnapshots\<close> of \<^verbatim>\<open>snapshot.go\<close> (not among the sources).
  \<open>getActiveSnapshot(domain, id)\<close> is the current leaf snapshot for the key, or
  \<open>NotFound\<close>; the mounts of a task are those of the active snapshot;
  \<open>deleteContainerSnapshots(domain, id)\<close> removes the whole snapshot chain of the key and
  its result is ignored by the caller.
\<close>

definition getActiveSnapshot :: "backend \<Rightarrow> byte list \<Rightarrow> byte list \<Rightarrow> error + snapshot_info" where
  "getActiveSnapshot s dmn ident =
     (let key = composeCtrdID dmn ident in
      if fails s SnapshotCall then Inl (RuntimeError ''failed to get active snapshot'')
      else (case active s key of
              None \<Rightarrow> Inl (NotFound ''snapshot'' key)
            | Some n \<Rightarrow>
                (case find (\<lambda>i. Name i = n) (snapshots s) of
                   None \<Rightarrow> Inl (NotFound ''snapshot'' key)
                 | Some i \<Rightarrow> Inr i)))"

definition getActiveSnapMounts :: "backend \<Rightarrow> byte list \<Rightarrow> byte list \<Rightarrow> error + string list" where
  "getActiveSnapMounts s dmn ident =
     (case getActiveSnapshot s dmn ident of Inl e \<Rightarrow> Inl e | Inr i \<Rightarrow> Inr [Name i])"

definition deleteContainerSnapshots :: "backend \<Rightarrow> byte list \<Rightarrow> byte list \<Rightarrow> backend" where
  "deleteContainerSnapshots s dmn ident =
     (let key = composeCtrdID dmn ident in
      if fails s SnapshotCall then s
      else s\<lparr>snapshots := filter (\<lambda>i. Name i \<notin> set (chain s key)) (snapshots s),
             chain := (chain s)(key := []),
             active := (active s)(key := None)\<rparr>)"

section \<open>Enumerating snapshots\<close>

text \<open>
  \<^verbatim>\<open>containerdRuntime.Snapshots\<close>. The two Go maps are association lists; a read of
  \<open>isParent\<close> is \<open>False\<close> for a missing key. Go iterates a map in no fixed order: the
  slice returned is the map's values in one order, and properties are about its set.
\<close>

type_synonym snap_map = "(string \<times> snapshot_info) list"
type_synonym parent_map = "(string \<times> bool) list"

definition is_true :: "parent_map \<Rightarrow> string \<Rightarrow> bool" where
  "is_true m k = (case map_of m k of None \<Rightarrow> False | Some b \<Rightarrow> b)"

definition walk_fn :: "snap_map \<times> parent_map \<Rightarrow> snapshot_info \<Rightarrow> snap_map \<times> parent_map" where
  "walk_fn st info =
     (let snapMap = (if \<not> is_true (snd st) (Name info)
                     then AList.update (Name info) info (fst st) else fst st);
          isParent = (if Parent info \<noteq> []
                      then AList.update (Parent info) True (snd st) else snd st)
      in (snapMap, isParent))"

definition drop_parent :: "snap_map \<Rightarrow> string \<Rightarrow> snap_map" where
  "drop_parent snapMap p = (if map_of snapMap p \<noteq> None then AList.delete p snapMap else snapMap)"

definition Snapshots :: "backend \<Rightarrow> byte list \<Rightarrow> error + snapshot_info list" where
  "Snapshots s dmn =
     (case snapshots_Walk s of
        Inl e \<Rightarrow> Inl (RuntimeError ''failed to get snapshots'')
      | Inr infos \<Rightarrow>
          (let st = foldl walk_fn ([], []) infos;
               snapMap = foldl drop_parent (fst st) (map fst (snd st))
           in Inr (map snd snapMap)))"

text \<open>
  The names recorded as a parent by a walk over \<open>infos\<close>, and what the two maps of
  \<open>Snapshots\<close> hold after the walk has visited \<open>xs\<close>.
\<close>

definition parents :: "snapshot_info list \<Rightarrow> string set" where
  "parents infos = Parent ` {j \<in> set infos. Parent j \<noteq> []}"

definition walk_inv :: "snapshot_info list \<Rightarrow> snap_map \<times> parent_map \<Rightarrow> bool" where
  "walk_inv xs st =
     (distinct (map fst (fst st)) \<and>
      (\<forall>k. is_true (snd st) k = (k \<in> parents xs)) \<and>
      set (map fst (snd st)) = parents xs \<and>
      (\<forall>n i. map_of (fst st) n = Some i \<longrightarrow> i \<in> set xs \<and> Name i = n) \<and>
      (\<forall>i \<in> set xs. Name i \<notin> parents xs \<longrightarrow> map_of (fst st) (Name i) = Some i))"

section \<open>Containers\<close>

text \<open>
  Modelled from the spec: the two label keys are constants declared in a file that is
  not among the sources. The model fixes two different keys; nothing depends on their
  text beyond their being different.
\<close>

definition containerdGenerationLabel :: string where
  "containerdGenerationLabel = ''CNE-GEN''"

definition containerdUIDLabel :: string where
  "containerdUIDLabel = ''CNE-UID''"

text \<open>
  The \<^verbatim>\<open>container\<close> struct. \<open>ctrdContainer\<close> is \<open>None\<close> for Go's nil; a method called
  on a nil \<^verbatim>\<open>containerd.Container\<close> panics. The runtime pointer of the struct is the
  backend state that every function takes and returns.
\<close>

record container =
  domain :: "byte list"
  id' :: "byte list"
  generation :: "byte list"
  uid :: "32 word"
  spec :: oci_spec
  image' :: image
  ctrdContainer :: "string option"

definition getGeneration :: "backend \<Rightarrow> string \<Rightarrow> error + byte list" where
  "getGeneration s ctrdCtr =
     (case container_Labels s ctrdCtr of
        Inl e \<Rightarrow> Inl (RuntimeError ''failed to get generation'')
      | Inr labels \<Rightarrow>
          (case hex_DecodeString (label_of labels containerdGenerationLabel) of
             Inl e \<Rightarrow> Inl (RuntimeError ''failed to decode generation'')
           | Inr str \<Rightarrow> Inr (copy16 str)))"

definition getUID :: "backend \<Rightarrow> string \<Rightarrow> error + 32 word" where
  "getUID s ctrdCtr =
     (case container_Labels s ctrdCtr of
        Inl e \<Rightarrow> Inl (RuntimeError ''failed to get uid'')
      | Inr labels \<Rightarrow>
          (case strconv_ParseUint32 (label_of labels containerdUIDLabel) of
             None \<Rightarrow> Inl (RuntimeError ''invalid uid label'')
           | Some u \<Rightarrow> Inr u))"

definition newContainer ::
  "string option \<Rightarrow> byte list \<Rightarrow> byte list \<Rightarrow> byte list \<Rightarrow> 32 word \<Rightarrow> image \<Rightarrow> oci_spec \<Rightarrow> container" where
  "newContainer ctrdCtr dmn ident gen u img sp =
     \<lparr>domain = dmn, id' = ident, generation = gen, uid = u, spec = sp, image' = img,
      ctrdContainer = ctrdCtr\<rparr>"

definition Generation :: "container \<Rightarrow> byte list" where
  "Generation ctr = generation ctr"

subsection \<open>Deleting\<close>

text \<open>
  \<^verbatim>\<open>deleteCtrdTask\<close>. After a successful \<^verbatim>\<open>Kill\<close> the receive \<^verbatim>\<open><-c\<close> returns, the
  task having exited.
\<close>

definition deleteCtrdTask :: "backend \<Rightarrow> string \<Rightarrow> (error + unit) \<times> backend" where
  "deleteCtrdTask s ctrdCtr =
     (case container_Task s ctrdCtr of
        Inl e \<Rightarrow>
          if ctrderr_IsNotFound e then (Inr (), s)
          else (Inl (RuntimeError ''failed to get container task''), s)
      | Inr ctrdTask \<Rightarrow>
          (case task_Status s ctrdTask of
             Inl e \<Rightarrow> (Inl (RuntimeError ''failed to get status for task''), s)
           | Inr stat \<Rightarrow>
               (case (if stat \<noteq> Stopped
                      then (case task_Wait s ctrdTask of
                              Inl e \<Rightarrow> (Inl (RuntimeError ''failed to wait for task''), s)
                            | Inr c \<Rightarrow>
                                (case task_Kill s ctrdTask of
                                   (Inl e, s1) \<Rightarrow> (Inl (RuntimeError ''failed to kill task''), s1)
                                 | (Inr u, s1) \<Rightarrow> (Inr (), s1)))
                      else (Inr (), s)) of
                  (Inl e, s1) \<Rightarrow> (Inl e, s1)
                | (Inr u, s1) \<Rightarrow>
                    (case task_Delete s1 ctrdTask of
                       (Inl e, s2) \<Rightarrow>
                         if \<not> ctrderr_IsNotFound e
                         then (Inl (RuntimeError ''failed to delete task''), s2)
                         else (Inr (), s2)
                     | (Inr u', s2) \<Rightarrow> (Inr (), s2)))))"

definition deleteCtrdContainer ::
  "backend \<Rightarrow> string \<Rightarrow> byte list \<Rightarrow> byte list \<Rightarrow> bool \<Rightarrow> (error + unit) \<times> backend" where
  "deleteCtrdContainer s ctrdCtr dmn ident purge =
     (case deleteCtrdTask s ctrdCtr of
        (r, s1) \<Rightarrow>
          (case (case r of Inl e \<Rightarrow> if \<not> is_ErrNotFound e then Some e else None
                 | Inr u \<Rightarrow> None) of
             Some e \<Rightarrow> (Inl e, s1)
           | None \<Rightarrow>
               (case container_Delete s1 ctrdCtr of
                  (Inl e, s2) \<Rightarrow> (Inl (Backend e), s2)
                | (Inr u, s2) \<Rightarrow>
                    (Inr (), if purge then deleteContainerSnapshots s2 dmn ident else s2))))"

definition deleteContainer ::
  "backend \<Rightarrow> byte list \<Rightarrow> byte list \<Rightarrow> bool \<Rightarrow> (error + unit) \<times> backend" where
  "deleteContainer s dmn ident purge =
     (let ctrdID = composeCtrdID dmn ident in
      case client_LoadContainer s ctrdID of
        Inl e \<Rightarrow>
          if ctrderr_IsNotFound e then (Inl (NotFound ''container'' ctrdID), s)
          else (Inl (RuntimeError ''failed to get container''), s)
      | Inr ctrdCtr \<Rightarrow> deleteCtrdContainer s ctrdCtr dmn ident purge)"

definition Delete :: "backend \<Rightarrow> container \<Rightarrow> (error + unit) \<times> backend" where
  "Delete s ctr =
     (case ctrdContainer ctr of
        None \<Rightarrow> (Inl Panic, s)
      | Some ctrdCtr \<Rightarrow> deleteCtrdContainer s ctrdCtr (domain ctr) (id' ctr) False)"

definition Purge :: "backend \<Rightarrow> container \<Rightarrow> (error + unit) \<times> backend" where
  "Purge s ctr =
     (case ctrdContainer ctr of
        None \<Rightarrow> (Inl Panic, s)
      | Some ctrdCtr \<Rightarrow> deleteCtrdContainer s ctrdCtr (domain ctr) (id' ctr) True)"

subsection \<open>Looking up\<close>

definition getContainer ::
  "backend \<Rightarrow> byte list \<Rightarrow> byte list \<Rightarrow> byte list \<Rightarrow> (error + container) \<times> backend" where
  "getContainer s dmn ident gen =
     (let ctrdID = composeCtrdID dmn ident in
      case client_LoadContainer s ctrdID of
        Inl e \<Rightarrow>
          if ctrderr_IsNotFound e then (Inl (NotFound ''container'' ctrdID), s)
          else (Inl (RuntimeError ''failed to get container''), s)
      | Inr ctrdCtr \<Rightarrow>
          (case getGeneration s ctrdCtr of
             Inl e \<Rightarrow> (Inl e, s)
           | Inr ctrdGen \<Rightarrow>
               if ctrdGen \<noteq> gen then (Inl (NotFound ''container'' ctrdID), s)
               else
                 (case getUID s ctrdCtr of
                    Inl e \<Rightarrow> (Inl e, s)
                  | Inr u \<Rightarrow>
                      (case getActiveSnapshot s dmn ident of
                         Inl e \<Rightarrow>
                           if is_ErrNotFound e
                           then (Inl (NotFound ''container'' ctrdID),
                                 snd (deleteCtrdContainer s ctrdCtr dmn ident False))
                           else (Inl e, s)
                       | Inr snap \<Rightarrow>
                           (case container_Image s ctrdCtr of
                              Inl e \<Rightarrow> (Inl (RuntimeError ''failed to get image''), s)
                            | Inr img \<Rightarrow>
                                (case container_Spec s ctrdCtr of
                                   Inl e \<Rightarrow> (Inl (RuntimeError ''failed to get image spec''), s)
                                 | Inr sp \<Rightarrow>
                                     (Inr (newContainer (Some ctrdCtr) dmn ident gen u img sp),
                                      s)))))))"

subsection \<open>Creating and committing\<close>

text \<open>
  The second half of \<^verbatim>\<open>container.Create\<close>, after the check for an existing container:
  complete the spec from the image config and create the backend container with the
  generation and uid labels. \<^verbatim>\<open>spec := ctr.spec\<close> copies the struct but shares the
  \<open>Process\<close> it points to, so the writes to \<^verbatim>\<open>spec.Process\<close> show in \<open>ctr\<close> when it
  had a process spec.
\<close>

definition Create_new :: "backend \<Rightarrow> container \<Rightarrow> (error + unit) \<times> backend \<times> container" where
  "Create_new s ctr =
     (let gen = hex_EncodeToString (generation ctr);
          sp0 = spec ctr;
          proc0 = (case Process sp0 of None \<Rightarrow> \<lparr>Args = [], Cwd = []\<rparr> | Some p \<Rightarrow> p)
      in case image_Config s (image' ctr) of
           Inl e \<Rightarrow> (Inl (RuntimeError ''failed to get image OCI spec''), s, ctr)
         | Inr cfg \<Rightarrow>
             (let proc = (if Linux sp0 \<noteq> None
                          then proc0\<lparr>Args := Entrypoint cfg @ Cmd cfg,
                                     Cwd := (if WorkingDir cfg = [] then ''/''
                                             else WorkingDir cfg)\<rparr>
                          else proc0);
                  sp = sp0\<lparr>Process := Some proc\<rparr>;
                  ctr1 = (if Process sp0 \<noteq> None then ctr\<lparr>spec := sp\<rparr> else ctr);
                  uuidName = composeCtrdID (domain ctr) (id' ctr);
                  labels = [containerdGenerationLabel \<mapsto> gen,
                            containerdUIDLabel \<mapsto> strconv_FormatUint (unat (uid ctr))]
              in case client_NewContainer s uuidName (image' ctr) sp
                        ''io.containerd.runtime.v1.linux'' labels of
                   (Inl e, s1) \<Rightarrow> (Inl (RuntimeError ''failed to create container''), s1, ctr1)
                 | (Inr ctrdCtr, s1) \<Rightarrow> (Inr (), s1, ctr1\<lparr>ctrdContainer := Some ctrdCtr\<rparr>)))"

definition Create :: "backend \<Rightarrow> container \<Rightarrow> (error + unit) \<times> backend \<times> container" where
  "Create s ctr =
     (let ctrdID = composeCtrdID (domain ctr) (id' ctr);
          gen = hex_EncodeToString (generation ctr)
      in case client_LoadContainer s ctrdID of
           Inl e \<Rightarrow> if \<not> ctrderr_IsNotFound e then (Inl (Backend e), s, ctr) else Create_new s ctr
         | Inr ctrdCtr \<Rightarrow>
             (let ctr1 = ctr\<lparr>ctrdContainer := Some ctrdCtr\<rparr>
              in case container_Labels s ctrdCtr of
                   Inl e \<Rightarrow> (Inl (Backend e), s, ctr1)
                 | Inr labels \<Rightarrow>
                     if label_of labels containerdGenerationLabel = gen
                     then (Inl (AlreadyExists ''container'' ctrdID), s, ctr1)
                     else (case deleteCtrdContainer s ctrdCtr (domain ctr) (id' ctr) False of
                             (Inl e, s1) \<Rightarrow> (Inl e, s1, ctr1)
                           | (Inr u, s1) \<Rightarrow> Create_new s1 ctr1)))"

definition Commit ::
  "backend \<Rightarrow> container \<Rightarrow> byte list \<Rightarrow> (error + unit) \<times> backend \<times> container" where
  "Commit s ctr gen =
     (case ctrdContainer ctr of
        None \<Rightarrow> (Inl Panic, s, ctr)
      | Some ctrdCtr \<Rightarrow>
          (case container_Labels s ctrdCtr of
             Inl e \<Rightarrow> (Inl (Backend e), s, ctr)
           | Inr labels \<Rightarrow>
               (case container_SetLabels s ctrdCtr
                       (labels(containerdGenerationLabel \<mapsto> hex_EncodeToString gen)) of
                  (Inl e, s1) \<Rightarrow> (Inl (Backend e), s1, ctr)
                | (Inr ls, s1) \<Rightarrow> (Inr (), s1, ctr))))"

subsection \<open>Executing\<close>

record stream =
  Terminal :: bool

record process =
  p_container :: container
  ctrdProc :: "string \<times> string"

definition createTask :: "backend \<Rightarrow> container \<Rightarrow> (error + string) \<times> backend \<times> container" where
  "createTask s ctr =
     (case getActiveSnapMounts s (domain ctr) (id' ctr) of
        Inl e \<Rightarrow> (Inl e, s, ctr)
      | Inr mounts \<Rightarrow>
          (case ctrdContainer ctr of
             None \<Rightarrow> (Inl Panic, s, ctr)
           | Some ctrdCtr \<Rightarrow>
               (case container_NewTask s ctrdCtr mounts of
                  (Inl e, s1) \<Rightarrow>
                    (Inl (RuntimeError ''failed to create container task''),
                     snd (deleteCtrdContainer s1 ctrdCtr (domain ctr) (id' ctr) False),
                     ctr\<lparr>ctrdContainer := None\<rparr>)
                | (Inr ctrdTask, s1) \<Rightarrow> (Inr ctrdTask, s1, ctr))))"

text \<open>
  \<^verbatim>\<open>container.Exec\<close>. \<open>execID\<close> is the fresh \<^verbatim>\<open>uuid.New()\<close>. \<^verbatim>\<open>procSpec.Args[0]\<close>
  panics on an empty argv.
\<close>

definition Exec ::
  "backend \<Rightarrow> container \<Rightarrow> stream \<Rightarrow> string \<Rightarrow> process_spec \<Rightarrow>
     (error + process) \<times> backend \<times> container" where
  "Exec s ctr strm execID procSpec =
     (case ctrdContainer ctr of
        None \<Rightarrow> (Inl Panic, s, ctr)
      | Some ctrdCtr \<Rightarrow>
          (case (case container_Task s ctrdCtr of
                   Inl e \<Rightarrow> if ctrderr_IsNotFound e then createTask s ctr
                            else (Inl (Backend e), s, ctr)
                 | Inr t \<Rightarrow> (Inr t, s, ctr)) of
             (Inl e, s1, ctr1) \<Rightarrow> (Inl (RuntimeError ''failed to get task''), s1, ctr1)
           | (Inr ctrdTask, s1, ctr1) \<Rightarrow>
               (case task_Exec s1 ctrdTask execID procSpec of
                  (Inl e, s2) \<Rightarrow> (Inl (RuntimeError ''exec failed''), s2, ctr1)
                | (Inr proc, s2) \<Rightarrow>
                    (case process_Start s2 proc of
                       (Inl e, s3) \<Rightarrow>
                         if \<not> ctrderr_IsNotFound e
                         then (case Args procSpec of
                                 [] \<Rightarrow> (Inl Panic, s3, ctr1)
                               | a # as \<Rightarrow> (Inl (NotFound ''command'' a), s3, ctr1))
                         else (Inl (RuntimeError ''starting process failed''), s3, ctr1)
                     | (Inr u, s3) \<Rightarrow>
                         (Inr \<lparr>p_container = ctr1, ctrdProc = proc\<rparr>, s3, ctr1)))))"

section \<open>Progress display\<close>

text \<open>
  \<^verbatim>\<open>runtime.ProgressStatus\<close> with the fields \<^verbatim>\<open>showImageProgress\<close> reads, and the
  state of its loop. Modelled from the spec: the status text of a running item is a
  constant of the runtime package, which is not among the sources.
\<close>

record ProgressStatus =
  Reference :: string
  Status :: string
  Details :: string
  Offset :: int
  Total :: int

definition StatusRunning :: string where
  "StatusRunning = ''running''"

definition zero_status :: ProgressStatus where
  "zero_status = \<lparr>Reference = [], Status = [], Details = [], Offset = 0, Total = 0\<rparr>"

record progress_state =
  statCached :: "string \<rightharpoonup> ProgressStatus"
  statRefs :: "string list"
  lines :: nat
  ticks :: nat

text \<open>One pass of the inner loop over a batch.\<close>

definition receive_status :: "progress_state \<Rightarrow> ProgressStatus \<Rightarrow> progress_state" where
  "receive_status st status =
     (let refs = (if statCached st (Reference status) = None
                  then statRefs st @ [Reference status] else statRefs st)
      in st\<lparr>statRefs := refs, statCached := (statCached st)(Reference status \<mapsto> status)\<rparr>)"

text \<open>
  A line of the display is kept as its parts (the text formatting is not modelled): the
  first 12 characters of the reference and what is shown for it. \<^verbatim>\<open>ref[:12]\<close> panics
  on a reference shorter than 12 characters.
\<close>

datatype display_line =
  Extracting string nat | Downloading string int int | Titled string string

definition render_ref :: "progress_state \<Rightarrow> string \<Rightarrow> error + display_line" where
  "render_ref st ref0 =
     (let status = (case statCached st ref0 of None \<Rightarrow> zero_status | Some x \<Rightarrow> x);
          decoded = strings_Index ref0 CHR '':'';
          ref = (if decoded > 0 then drop (nat (decoded + 1)) ref0 else ref0)
      in if length ref < 12 then Inl Panic
         else if Status status = StatusRunning
         then (if Offset status = Total status
               then Inr (Extracting (take 12 ref) (ticks st mod 4))
               else Inr (Downloading (take 12 ref) (Offset status) (Total status)))
         else Inr (Titled (take 12 ref) (Status status)))"

fun render :: "progress_state \<Rightarrow> string list \<Rightarrow> error + display_line list" where
  "render st [] = Inr []"
| "render st (r # rs) =
     (case render_ref st r of
        Inl e \<Rightarrow> Inl e
      | Inr l \<Rightarrow> (case render st rs of Inl e \<Rightarrow> Inl e | Inr ls \<Rightarrow> Inr (l # ls)))"

text \<open>
  The loop over the channel: the batches are the finite sequence that is received before
  the channel is closed. The result is the state after each batch that was received, and
  the panic that ended the loop, if one did.
\<close>

fun progress_loop ::
  "progress_state \<Rightarrow> ProgressStatus list list \<Rightarrow> progress_state list \<times> error option" where
  "progress_loop st [] = ([], None)"
| "progress_loop st (statUpdate # rest) =
     (let st1 = foldl receive_status st statUpdate
      in case render st1 (statRefs st1) of
           Inl e \<Rightarrow> ([st1], Some e)
         | Inr frame \<Rightarrow>
             (let st2 = st1\<lparr>lines := length (statRefs st1), ticks := ticks st1 + 1\<rparr>
              in case progress_loop st2 rest of (tr, r) \<Rightarrow> (st2 # tr, r)))"

definition showImageProgress ::
  "ProgressStatus list list \<Rightarrow> progress_state list \<times> error option" where
  "showImageProgress progress =
     progress_loop \<lparr>statCached = Map.empty, statRefs = [], lines = 0, ticks = 0\<rparr> progress"

text \<open>
  The words of the specification for the display state: the references seen, once each,
  in the order of their first occurrence, and for each the status received last.
\<close>

definition first_seen :: "string list \<Rightarrow> string list" where
  "first_seen refs = rev (remdups (rev refs))"

definition latest_status :: "ProgressStatus list \<Rightarrow> string \<rightharpoonup> ProgressStatus" where
  "latest_status stream r = find (\<lambda>x. Reference x = r) (rev stream)"

text \<open>The display state agrees with the stream received so far.\<close>

definition display_inv :: "progress_state \<Rightarrow> ProgressStatus list \<Rightarrow> bool" where
  "display_inv st seen =
     (statRefs st = first_seen (map Reference seen) \<and> statCached st = latest_status seen)"

section \<open>Sample values\<close>

definition dom0 :: "byte list" where
  "dom0 = [0x10, 0x32, 0x54, 0x76, 0x98, 0xba, 0xdc, 0xfe, 0, 1, 2, 3, 4, 5, 6, 7]"

definition id0 :: "byte list" where
  "id0 = [0xa0, 0xa1, 0xa2, 0xa3, 0xa4, 0xa5, 0xa6, 0xa7, 0xa8, 0xa9, 0xaa, 0xab, 0xac, 0xad,
          0xae, 0xaf]"

definition gen0 :: "byte list" where
  "gen0 = [1, 1, 1, 1, 1, 1, 1, 1, 1, 1, 1, 1, 1, 1, 1, 1]"

definition gen1 :: "byte list" where
  "gen1 = [2, 2, 2, 2, 2, 2, 2, 2, 2, 2, 2, 2, 2, 2, 2, 2]"

definition key0 :: string where
  "key0 = composeCtrdID dom0 id0"

definition img0 :: image where
  "img0 = \<lparr>ctrdImage = ''docker.io/library/alpine:latest'',
           config = \<lparr>Entrypoint = [], Cmd = [''/bin/sh''], WorkingDir = []\<rparr>\<rparr>"

definition spec0 :: oci_spec where
  "spec0 = \<lparr>Process = None, Linux = Some ()\<rparr>"

definition task0 :: ctrd_task where
  "task0 = \<lparr>t_status = Running, t_mounts = [''rootfs''], t_execs = [], t_started = []\<rparr>"

definition ctrd0 :: ctrd_container where
  "ctrd0 = \<lparr>c_labels = [containerdGenerationLabel \<mapsto> hex_EncodeToString gen0,
                        containerdUIDLabel \<mapsto> ''1000''],
            c_image = img0, c_spec = spec0, c_runtime = ''io.containerd.runtime.v1.linux'',
            c_task = Some task0\<rparr>"

text \<open>A backend with one container with a running task and no snapshot at all.\<close>

definition backend0 :: backend where
  "backend0 = \<lparr>containers = [key0 \<mapsto> ctrd0], snapshots = [], chain = (\<lambda>k. []),
               active = Map.empty, start_error = (\<lambda>argv. None), fails = no_faults\<rparr>"

text \<open>The same, the container carrying a generation label only.\<close>

definition backend_nouid :: backend where
  "backend_nouid =
     backend0\<lparr>containers :=
       [key0 \<mapsto> ctrd0\<lparr>c_labels := [containerdGenerationLabel \<mapsto> hex_EncodeToString gen0]\<rparr>]\<rparr>"

definition ctr0 :: container where
  "ctr0 = \<lparr>domain = dom0, id' = id0, generation = gen0, uid = 1000, spec = spec0,
           image' = img0, ctrdContainer = Some key0\<rparr>"

definition ctr1 :: container where
  "ctr1 = ctr0\<lparr>generation := gen1\<rparr>"

definition dom1 :: "byte list" where
  "dom1 = [0x20, 0x32, 0x54, 0x76, 0x98, 0xba, 0xdc, 0xfe, 0, 1, 2, 3, 4, 5, 6, 7]"

text \<open>
  A backend with a base snapshot and two leaves on it, one in the chain of a key of
  \<open>dom0\<close> and one in the chain of a key of \<open>dom1\<close>; and a backend whose start call
  reports not-found for one argv and unavailable for another.
\<close>

definition snap_base :: snapshot_info where
  "snap_base = \<lparr>Name = ''base'', Parent = []\<rparr>"

definition snap_a :: snapshot_info where
  "snap_a = \<lparr>Name = ''snap-a'', Parent = ''base''\<rparr>"

definition snap_b :: snapshot_info where
  "snap_b = \<lparr>Name = ''snap-b'', Parent = ''base''\<rparr>"

definition backend_snaps :: backend where
  "backend_snaps =
     backend0\<lparr>snapshots := [snap_a, snap_base, snap_b],
              chain := (\<lambda>k. if k = composeCtrdID dom0 id0 then [''snap-a'']
                            else if k = composeCtrdID dom1 id0 then [''snap-b''] else [])\<rparr>"

definition backend_exec :: backend where
  "backend_exec =
     backend0\<lparr>start_error := (\<lambda>argv. if argv = [''/no/such/cmd''] then Some CtrdNotFound
                                   else if argv = [''/bin/locked''] then Some CtrdUnavailable
                                   else None)\<rparr>"

definition ref_a :: string where "ref_a = ''sha256:aaaaaaaaaaaaaaaa''"
definition ref_b :: string where "ref_b = ''sha256:bbbbbbbbbbbbbbbb''"
definition ref_c :: string where "ref_c = ''sha256:cccccccccccccccc''"

definition mk_status :: "string \<Rightarrow> string \<Rightarrow> ProgressStatus" where
  "mk_status r st = \<lparr>Reference = r, Status = st, Details = [], Offset = 0, Total = 0\<rparr>"

definition progress0 :: "ProgressStatus list list" where
  "progress0 =
     [[mk_status ref_a ''queued'', mk_status ref_b ''queued''],
      [mk_status ref_a ''running'', mk_status ref_c ''queued''],
      [mk_status ref_b ''done'', mk_status ref_c ''done'', mk_status ref_a ''done'']]"

section \<open>Properties of the identity scheme\<close>

lemma mask4: "(15::byte) = mask 4"
  by (simp add: mask_eq_exp_minus_1)

lemma fromHexChar_hextable: "n < 16 \<Longrightarrow> fromHexChar (hextable ! n) = Some (of_nat n)"
proof -
  have "\<forall>n \<in> set [0..<16]. fromHexChar (hextable ! n) = Some (of_nat n)"
    unfolding hextable_def fromHexChar_def by code_simp
  then show "n < 16 \<Longrightarrow> ?thesis" by simp
qed

lemma hextable_no_delim: "n < 16 \<Longrightarrow> hextable ! n \<noteq> CHR ''-''"
proof -
  have "\<forall>n \<in> set [0..<16]. hextable ! n \<noteq> CHR ''-''"
    unfolding hextable_def by code_simp
  then show "n < 16 \<Longrightarrow> ?thesis" by simp
qed

lemma high_nibble_less: "unat (drop_bit 4 (v::byte)) < 16"
proof -
  have "unat v < 256" using unsigned_less[of v, where 'a=nat] by simp
  then have "unat v div 16 < 16" by simp
  then show ?thesis by (simp add: drop_bit_eq_div unat_div)
qed

lemma low_nibble_less: "unat ((v::byte) AND 15) < 16"
  by (simp add: mask4 unat_mod take_bit_eq_mod flip: take_bit_eq_mask)

lemma nibbles_join: "push_bit 4 (drop_bit 4 (v::byte)) OR (v AND 15) = v"
  unfolding mask4
  by (rule bit_word_eqI) (auto simp: bit_simps)

lemma hex_decode_encode: "hex_DecodeString (hex_EncodeToString bs) = Inr bs"
  by (induction bs)
    (simp_all add: fromHexChar_hextable high_nibble_less low_nibble_less nibbles_join)

lemma hex_encode_no_delim: "CHR ''-'' \<notin> set (hex_EncodeToString bs)"
proof (induction bs)
  case Nil
  show ?case by simp
next
  case (Cons v vs)
  have "hextable ! unat (drop_bit 4 v) \<noteq> CHR ''-''"
    by (rule hextable_no_delim) (rule high_nibble_less)
  moreover have "hextable ! unat (v AND 15) \<noteq> CHR ''-''"
    by (rule hextable_no_delim) (rule low_nibble_less)
  ultimately show ?case using Cons by auto
qed

lemma strings_Index_takeWhile:
  "c \<in> set s \<Longrightarrow> strings_Index s c = int (length (takeWhile (\<lambda>x. x \<noteq> c) s))"
  by (induction s) (auto simp: Let_def)

lemma strings_Index_absent: "c \<notin> set s \<Longrightarrow> strings_Index s c = -1"
  by (induction s) (auto simp: Let_def)

lemma copy16_id: "length s = 16 \<Longrightarrow> copy16 s = s"
  by (simp add: copy16_def)

lemma hex_DecodeString_ok_iff: "isl (hex_DecodeString s) \<longleftrightarrow> \<not> hex_string s"
proof (induction s rule: hex_DecodeString.induct)
  case 1
  show ?case by (simp add: hex_string_def)
next
  case (2 c)
  show ?case by (simp add: hex_string_def split: option.splits)
next
  case (3 p q cs)
  show ?case
  proof (cases "fromHexChar p")
    case None
    then show ?thesis by (simp add: hex_string_def is_hex_digit_def)
  next
    case (Some a)
    note pa = this
    show ?thesis
    proof (cases "fromHexChar q")
      case None
      then show ?thesis using pa by (simp add: hex_string_def is_hex_digit_def)
    next
      case (Some b)
      have "isl (hex_DecodeString cs) \<longleftrightarrow> \<not> hex_string cs"
        using "3.IH"[OF pa Some] .
      then show ?thesis
        using pa Some
        by (cases "hex_DecodeString cs") (simp_all add: hex_string_def is_hex_digit_def)
    qed
  qed
qed

lemma hex_DecodeString_cases:
  "hex_DecodeString s = (if hex_string s then Inr (hex_bytes s) else Inl (projl (hex_DecodeString s)))"
  using hex_DecodeString_ok_iff[of s] by (cases "hex_DecodeString s") (simp_all add: hex_bytes_def)

lemma length_takeWhile_delim:
  "c \<in> set s \<Longrightarrow> length (takeWhile (\<lambda>x. x \<noteq> c) s) < length s"
  by (induction s) auto

lemma split_groups:
  assumes "CHR ''-'' \<in> set key"
  shows "slice_to key (strings_Index key CHR ''-'') = Some (group1 key)"
    and "slice_from key (strings_Index key CHR ''-'' + 1) = Some (group2 key)"
proof -
  let ?P = "\<lambda>x. x \<noteq> CHR ''-''"
  let ?n = "length (takeWhile ?P key)"
  have idx: "strings_Index key CHR ''-'' = int ?n"
    using assms by (rule strings_Index_takeWhile)
  have lt: "?n < length key"
    using assms by (rule length_takeWhile_delim)
  have tk: "take ?n key = takeWhile ?P key"
    by (rule takeWhile_eq_take[symmetric])
  have dr: "drop ?n key = dropWhile ?P key"
    by (rule dropWhile_eq_drop[symmetric])
  show "slice_to key (strings_Index key CHR ''-'') = Some (group1 key)"
    using lt by (simp add: idx slice_to_def group1_def tk)
  have "drop (Suc ?n) key = drop 1 (drop ?n key)"
    by simp
  then have "drop (Suc ?n) key = drop 1 (dropWhile ?P key)"
    by (simp only: dr)
  then show "slice_from key (strings_Index key CHR ''-'' + 1) = Some (group2 key)"
    using lt by (simp add: idx slice_from_def group2_def nat_add_distrib)
qed

text \<open>
  C4. For all 16-byte values \<open>dmn\<close> and \<open>ident\<close>, splitting the composed key succeeds
  and returns exactly \<open>(dmn, ident)\<close>.
\<close>

theorem splitCtrdID_compose:
  assumes "length dmn = 16" and "length ident = 16"
  shows "splitCtrdID (composeCtrdID dmn ident) = Inr (dmn, ident)"
proof -
  let ?k = "composeCtrdID dmn ident"
  have mem: "CHR ''-'' \<in> set ?k" by (simp add: composeCtrdID_def)
  have no: "\<And>x. x \<in> set (hex_EncodeToString dmn) \<Longrightarrow> x \<noteq> CHR ''-''"
    using hex_encode_no_delim[of dmn] by auto
  have g1: "group1 ?k = hex_EncodeToString dmn"
    unfolding group1_def composeCtrdID_def
    by (subst takeWhile_append2) (use no in simp_all)
  have g2: "group2 ?k = hex_EncodeToString ident"
    unfolding group2_def composeCtrdID_def
    by (subst dropWhile_append2) (use no in simp_all)
  show ?thesis
    unfolding splitCtrdID_def Let_def split_groups[OF mem] g1 g2
    by (simp add: hex_decode_encode copy16_id assms)
qed

theorem splitCtrdID_compose_witness:
  "length dom0 = 16 \<and> length id0 = 16 \<and> splitCtrdID (composeCtrdID dom0 id0) = Inr (dom0, id0)"
proof -
  have d: "length dom0 = 16" and i: "length id0 = 16"
    by (simp_all add: dom0_def id0_def)
  show ?thesis using d i splitCtrdID_compose[OF d i] by simp
qed

text \<open>
  C5, as the code has it. For every key that contains the delimiter, \<open>splitCtrdID\<close> returns
  \<open>InvalidArgument\<close> exactly when the text before the first delimiter or the text after
  it is not an even number of hex digits; otherwise it succeeds, and each group's bytes
  are cut to 16 or filled with zeros up to 16.
\<close>

theorem splitCtrdID_delimited:
  assumes "CHR ''-'' \<in> set key"
  shows "splitCtrdID key =
    (if hex_string (group1 key) \<and> hex_string (group2 key)
     then Inr (copy16 (hex_bytes (group1 key)), copy16 (hex_bytes (group2 key)))
     else Inl (InvalidArgument key))"
  unfolding splitCtrdID_def Let_def split_groups[OF assms]
  by (subst (1 2) hex_DecodeString_cases) simp

theorem splitCtrdID_delimited_witness:
  "CHR ''-'' \<in> set ''ab-c'' \<and> splitCtrdID ''ab-c'' = Inl (InvalidArgument ''ab-c'')"
proof -
  have m: "CHR ''-'' \<in> set ''ab-c''" by simp
  have "\<not> hex_string (group2 ''ab-c'')"
    by (simp add: hex_string_def group2_def)
  then show ?thesis using m splitCtrdID_delimited[OF m] by simp
qed

text \<open>
  C5 as stated fails: a key of two one-byte groups is accepted and filled with zeros, and
  a key without a delimiter ends in a panic.
\<close>

theorem splitCtrdID_counterexample:
  "\<not> two_hex_groups ''ab-cd'' \<and>
   splitCtrdID ''ab-cd'' =
     Inr ([0xab, 0, 0, 0, 0, 0, 0, 0, 0, 0, 0, 0, 0, 0, 0, 0],
          [0xcd, 0, 0, 0, 0, 0, 0, 0, 0, 0, 0, 0, 0, 0, 0, 0]) \<and>
   \<not> two_hex_groups ''abcd'' \<and> splitCtrdID ''abcd'' = Inl Panic"
proof -
  have pad: "replicate 15 (0::byte) = [0, 0, 0, 0, 0, 0, 0, 0, 0, 0, 0, 0, 0, 0, 0]"
    by (simp add: numeral_eq_Suc)
  show ?thesis
    by (simp add: two_hex_groups_def splitCtrdID_def slice_to_def slice_from_def
        fromHexChar_def copy16_def pad)
qed

section \<open>Properties of the progress display\<close>

lemma first_seen_snoc:
  "first_seen (rs @ [r]) = (if r \<in> set rs then first_seen rs else first_seen rs @ [r])"
  by (simp add: first_seen_def)

lemma latest_status_snoc:
  "latest_status (xs @ [x]) = (latest_status xs)(Reference x \<mapsto> x)"
  by (rule ext) (simp add: latest_status_def)

lemma latest_status_None: "latest_status xs r = None \<longleftrightarrow> r \<notin> Reference ` set xs"
  by (auto simp: latest_status_def find_None_iff)

lemma set_first_seen: "set (first_seen rs) = set rs"
  by (simp add: first_seen_def)

lemma distinct_first_seen: "distinct (first_seen rs)"
  by (simp add: first_seen_def)

lemma receive_status_inv:
  assumes "display_inv st seen"
  shows "display_inv (receive_status st x) (seen @ [x])"
  using assms latest_status_None[of seen "Reference x"]
  by (simp add: display_inv_def receive_status_def first_seen_snoc latest_status_snoc)

lemma receive_batch_inv:
  "display_inv st seen \<Longrightarrow> display_inv (foldl receive_status st b) (seen @ b)"
proof (induction b arbitrary: st seen)
  case Nil
  then show ?case by simp
next
  case (Cons x b)
  have "display_inv (foldl receive_status (receive_status st x) b) ((seen @ [x]) @ b)"
    by (rule Cons.IH) (rule receive_status_inv[OF Cons.prems])
  then show ?case by simp
qed

lemma display_inv_frame:
  "display_inv (st\<lparr>lines := l, ticks := t\<rparr>) seen = display_inv st seen"
  by (simp add: display_inv_def)

lemma progress_loop_inv:
  "display_inv st seen \<Longrightarrow> progress_loop st bs = (trace, r) \<Longrightarrow> i < length trace \<Longrightarrow>
     display_inv (trace ! i) (seen @ concat (take (Suc i) bs))"
proof (induction bs arbitrary: st seen trace i r)
  case Nil
  then show ?case by simp
next
  case (Cons b bs)
  let ?st1 = "foldl receive_status st b"
  have inv1: "display_inv ?st1 (seen @ b)"
    by (rule receive_batch_inv[OF Cons.prems(1)])
  show ?case
  proof (cases "render ?st1 (statRefs ?st1)")
    case (Inl e)
    with Cons.prems have "trace = [?st1]" by (simp add: Let_def)
    with Cons.prems(3) inv1 show ?thesis by simp
  next
    case (Inr frame)
    let ?st2 = "?st1\<lparr>lines := length (statRefs ?st1), ticks := ticks ?st1 + 1\<rparr>"
    obtain tr r' where rest: "progress_loop ?st2 bs = (tr, r')"
      by (cases "progress_loop ?st2 bs")
    have tr: "trace = ?st2 # tr"
      using Cons.prems(2) Inr rest by (simp add: Let_def)
    have inv2: "display_inv ?st2 (seen @ b)"
      using inv1 by (simp add: display_inv_frame)
    show ?thesis
    proof (cases i)
      case 0
      then show ?thesis using tr inv2 by simp
    next
      case (Suc j)
      then have "j < length tr" using Cons.prems(3) tr by simp
      from Cons.IH[OF inv2 rest this] show ?thesis using Suc tr by simp
    qed
  qed
qed

lemma render_ref_Panic: "render_ref st r = Inl e \<Longrightarrow> e = Panic"
  by (auto simp: render_ref_def Let_def split: if_splits)

lemma render_Panic: "render st rs = Inl e \<Longrightarrow> e = Panic"
  by (induction rs arbitrary: e) (auto split: sum.splits dest: render_ref_Panic)

lemma progress_loop_length:
  "progress_loop st bs = (trace, r) \<Longrightarrow>
     length trace \<le> length bs \<and> (r = None \<longrightarrow> length trace = length bs) \<and> (r = None \<or> r = Some Panic)"
proof (induction bs arbitrary: st trace r)
  case Nil
  then show ?case by simp
next
  case (Cons b bs)
  let ?st1 = "foldl receive_status st b"
  show ?case
  proof (cases "render ?st1 (statRefs ?st1)")
    case (Inl e)
    then have "e = Panic" by (rule render_Panic)
    then show ?thesis using Cons.prems Inl by (auto simp: Let_def)
  next
    case (Inr frame)
    let ?st2 = "?st1\<lparr>lines := length (statRefs ?st1), ticks := ticks ?st1 + 1\<rparr>"
    obtain tr r' where rest: "progress_loop ?st2 bs = (tr, r')"
      by (cases "progress_loop ?st2 bs")
    have "trace = ?st2 # tr" "r = r'"
      using Cons.prems Inr rest by (simp_all add: Let_def)
    with Cons.IH[OF rest] show ?thesis by simp
  qed
qed

text \<open>
  C10. For every finite sequence of batches received, after every batch the display
  state of \<open>showImageProgress\<close> lists each reference seen so far exactly once, in the order
  of first occurrence, and maps each reference to the status received last for it. The
  loop receives every batch unless a panic ends it.
\<close>

theorem showImageProgress_display_state:
  assumes "showImageProgress progress = (trace, r)"
  shows "length trace \<le> length progress \<and> (r = None \<longrightarrow> length trace = length progress) \<and>
    (\<forall>i < length trace.
       statRefs (trace ! i) = first_seen (map Reference (concat (take (Suc i) progress))) \<and>
       distinct (statRefs (trace ! i)) \<and>
       set (statRefs (trace ! i)) = Reference ` set (concat (take (Suc i) progress)) \<and>
       statCached (trace ! i) = latest_status (concat (take (Suc i) progress)))"
proof -
  let ?init = "\<lparr>statCached = Map.empty, statRefs = [], lines = 0, ticks = 0\<rparr>"
  have loop: "progress_loop ?init progress = (trace, r)"
    using assms by (simp add: showImageProgress_def)
  have init: "display_inv ?init []"
    by (simp add: display_inv_def first_seen_def latest_status_def fun_eq_iff)
  have len: "length trace \<le> length progress \<and> (r = None \<longrightarrow> length trace = length progress)"
    using progress_loop_length[OF loop] by simp
  have "\<And>i. i < length trace \<Longrightarrow> display_inv (trace ! i) (concat (take (Suc i) progress))"
    using progress_loop_inv[OF init loop] by simp
  then show ?thesis
    using len by (simp add: display_inv_def set_first_seen distinct_first_seen)
qed

theorem showImageProgress_display_state_witness:
  "snd (showImageProgress progress0) = None \<and>
   length (fst (showImageProgress progress0)) = 3 \<and>
   statRefs (fst (showImageProgress progress0) ! 2) = [ref_a, ref_b, ref_c] \<and>
   statCached (fst (showImageProgress progress0) ! 2) ref_a = Some (mk_status ref_a ''done'')"
proof -
  let ?tr = "fst (showImageProgress progress0)"
  have run: "showImageProgress progress0 = (?tr, snd (showImageProgress progress0))"
    by simp
  have ok: "snd (showImageProgress progress0) = None"
    by (simp add: showImageProgress_def progress0_def receive_status_def render_ref_def
        mk_status_def ref_a_def ref_b_def ref_c_def StatusRunning_def Let_def)
  have len: "length progress0 = 3"
    by (simp add: progress0_def)
  note main = showImageProgress_display_state[OF run]
  have l3: "length ?tr = 3"
    using main ok len by simp
  then have at2: "statRefs (?tr ! 2) = first_seen (map Reference (concat (take (Suc 2) progress0)))
      \<and> statCached (?tr ! 2) = latest_status (concat (take (Suc 2) progress0))"
    using main by simp
  have refs: "first_seen (map Reference (concat (take (Suc 2) progress0))) = [ref_a, ref_b, ref_c]"
    by (simp add: progress0_def first_seen_def mk_status_def ref_a_def ref_b_def ref_c_def)
  have lat: "latest_status (concat (take (Suc 2) progress0)) ref_a = Some (mk_status ref_a ''done'')"
    by (simp add: progress0_def latest_status_def mk_status_def ref_a_def ref_b_def ref_c_def)
  show ?thesis using ok l3 at2 refs lat by simp
qed

section \<open>Properties of the container lifecycle\<close>

lemmas backend_calls =
  client_LoadContainer_def client_NewContainer_def container_Labels_def container_SetLabels_def
  container_Image_def container_Spec_def container_Task_def container_NewTask_def
  container_Delete_def task_Status_def task_Wait_def task_Kill_def task_Delete_def
  task_Exec_def process_Start_def the_task_def set_task_def

lemma set_task_same:
  "containers s h = Some c \<Longrightarrow> c_task c = t \<Longrightarrow> set_task s h t = s"
  by (simp add: set_task_def map_upd_triv)

text \<open>deleteCtrdTask changes at most the task of the container it is given.\<close>

lemma deleteCtrdTask_frame:
  assumes "deleteCtrdTask s h = (r, s1)"
  shows "s1 = s \<or> (\<exists>c t. containers s h = Some c \<and> s1 = s\<lparr>containers := (containers s)(h \<mapsto> c\<lparr>c_task := t\<rparr>)\<rparr>)"
  using assms
  by (auto simp: deleteCtrdTask_def backend_calls no_faults_def ctrderr_IsNotFound_def
      split: sum.splits option.splits if_splits prod.splits)

lemma deleteCtrdTask_ok:
  assumes "fails s = no_faults" and "containers s h = Some c"
  shows "deleteCtrdTask s h = (Inr (), s\<lparr>containers := (containers s)(h \<mapsto> c\<lparr>c_task := None\<rparr>)\<rparr>)"
  using assms
  apply (cases "c_task c")
   apply (simp add: deleteCtrdTask_def backend_calls no_faults_def ctrderr_IsNotFound_def map_upd_triv)
  apply (auto simp: deleteCtrdTask_def backend_calls no_faults_def ctrderr_IsNotFound_def
      split: sum.splits option.splits if_splits prod.splits)
  done

lemma deleteCtrdContainer_ok:
  assumes "fails s = no_faults" and "containers s h = Some c"
  shows "deleteCtrdContainer s h dmn ident False =
           (Inr (), s\<lparr>containers := (containers s)(h := None)\<rparr>)"
  using assms
  by (simp add: deleteCtrdContainer_def deleteCtrdTask_ok[OF assms] container_Delete_def
      no_faults_def)

lemma deleteCtrdContainer_gone:
  assumes "fails s = no_faults" and "containers s h = None"
  shows "deleteCtrdContainer s h dmn ident purge = (Inl (Backend CtrdNotFound), s)"
  using assms
  by (simp add: deleteCtrdContainer_def deleteCtrdTask_def backend_calls no_faults_def
      ctrderr_IsNotFound_def)

text \<open>Without purge, deleteCtrdContainer changes at most the entry of its container.\<close>

lemma deleteCtrdContainer_frame:
  assumes "deleteCtrdContainer s h dmn ident False = (r, s')"
  shows "snapshots s' = snapshots s \<and> chain s' = chain s \<and> active s' = active s \<and>
         fails s' = fails s \<and> start_error s' = start_error s \<and>
         (\<forall>k. k \<noteq> h \<longrightarrow> containers s' k = containers s k)"
proof -
  obtain r1 s1 where t: "deleteCtrdTask s h = (r1, s1)"
    by (cases "deleteCtrdTask s h")
  from deleteCtrdTask_frame[OF t]
  have f1: "snapshots s1 = snapshots s \<and> chain s1 = chain s \<and> active s1 = active s \<and>
         fails s1 = fails s \<and> start_error s1 = start_error s \<and>
         (\<forall>k. k \<noteq> h \<longrightarrow> containers s1 k = containers s k)"
    by auto
  have "s' = s1 \<or> s' = s1\<lparr>containers := (containers s1)(h := None)\<rparr>"
    using assms t
    by (auto simp: deleteCtrdContainer_def container_Delete_def
        split: sum.splits option.splits if_splits prod.splits)
  with f1 show ?thesis by auto
qed

lemma getGeneration_ok:
  assumes "\<not> fails s LabelsCall" and "containers s h = Some c"
    and "c_labels c containerdGenerationLabel = Some (hex_EncodeToString g)" and "length g = 16"
  shows "getGeneration s h = Inr g"
  using assms
  by (simp add: getGeneration_def container_Labels_def label_of_def hex_decode_encode copy16_id)

lemma hex_encode_inj:
  assumes "hex_EncodeToString a = hex_EncodeToString b"
  shows "a = b"
proof -
  have "hex_DecodeString (hex_EncodeToString a) = hex_DecodeString (hex_EncodeToString b)"
    using assms by (rule arg_cong)
  then show ?thesis by (simp only: hex_decode_encode sum.inject)
qed

lemma sample_lengths: "length gen0 = 16" "length gen1 = 16" "gen0 \<noteq> gen1"
  by (simp_all add: gen0_def gen1_def)

lemma backend0_load: "client_LoadContainer backend0 (composeCtrdID dom0 id0) = Inr key0"
  by (simp add: client_LoadContainer_def backend0_def no_faults_def key0_def)

lemma backend0_generation: "getGeneration backend0 key0 = Inr gen0"
  by (rule getGeneration_ok[where c = ctrd0])
     (simp_all add: backend0_def no_faults_def ctrd0_def sample_lengths
        containerdUIDLabel_def containerdGenerationLabel_def)

lemma backend0_uid: "getUID backend0 key0 = Inr 1000"
  by (simp add: getUID_def container_Labels_def backend0_def no_faults_def ctrd0_def label_of_def
      containerdUIDLabel_def containerdGenerationLabel_def strconv_ParseUint32_def digit_val_def)

lemma backend0_no_snapshot:
  "getActiveSnapshot backend0 dom0 id0 = Inl (NotFound ''snapshot'' (composeCtrdID dom0 id0))"
  by (simp add: getActiveSnapshot_def backend0_def no_faults_def Let_def)

text \<open>
  C1. If the backend has a container under the composed key (\<open>LoadContainer\<close> returns it)
  whose stored generation label decodes to \<open>g1\<close>, and \<open>g2\<close> is another generation, then
  \<open>getContainer\<close> for \<open>g2\<close> returns \<open>NotFound\<close> and the backend is left as it was.
\<close>

theorem getContainer_stale_generation:
  assumes "client_LoadContainer s (composeCtrdID dmn ident) = Inr ctrdCtr"
    and "getGeneration s ctrdCtr = Inr g1"
    and "g1 \<noteq> g2"
  shows "getContainer s dmn ident g2 = (Inl (NotFound ''container'' (composeCtrdID dmn ident)), s)"
  using assms by (simp add: getContainer_def)

theorem getContainer_stale_generation_witness:
  "client_LoadContainer backend0 (composeCtrdID dom0 id0) = Inr key0 \<and>
   getGeneration backend0 key0 = Inr gen0 \<and> gen0 \<noteq> gen1 \<and>
   getContainer backend0 dom0 id0 gen1 =
     (Inl (NotFound ''container'' (composeCtrdID dom0 id0)), backend0)"
  using getContainer_stale_generation[OF backend0_load backend0_generation sample_lengths(3)]
    backend0_load backend0_generation sample_lengths(3)
  by simp

text \<open>
  C2, as the code has it. If the backend has a container under the composed key whose
  generation label decodes to the expected generation and whose uid label parses, and no
  active snapshot exists for the key, then \<open>getContainer\<close> returns \<open>NotFound\<close> and its
  backend is what \<open>deleteCtrdContainer\<close> without purge leaves (the result of that call is
  ignored): the snapshot store and every other container are untouched, and on a backend
  that answers every call no container exists under the key afterwards.
\<close>

theorem getContainer_no_active_snapshot:
  assumes "client_LoadContainer s (composeCtrdID dmn ident) = Inr ctrdCtr"
    and "getGeneration s ctrdCtr = Inr g"
    and "getUID s ctrdCtr = Inr u"
    and "getActiveSnapshot s dmn ident = Inl e" and "is_ErrNotFound e"
  shows "\<exists>s'. getContainer s dmn ident g = (Inl (NotFound ''container'' (composeCtrdID dmn ident)), s') \<and>
           s' = snd (deleteCtrdContainer s ctrdCtr dmn ident False) \<and>
           snapshots s' = snapshots s \<and> chain s' = chain s \<and> active s' = active s \<and>
           (\<forall>k. k \<noteq> composeCtrdID dmn ident \<longrightarrow> containers s' k = containers s k) \<and>
           (fails s = no_faults \<longrightarrow> containers s' (composeCtrdID dmn ident) = None)"
proof -
  let ?key = "composeCtrdID dmn ident"
  have h: "ctrdCtr = ?key" and ex: "containers s ?key \<noteq> None"
    using assms(1) by (auto simp: client_LoadContainer_def split: if_splits option.splits)
  let ?d = "deleteCtrdContainer s ctrdCtr dmn ident False"
  have run: "getContainer s dmn ident g = (Inl (NotFound ''container'' ?key), snd ?d)"
    using assms by (simp add: getContainer_def)
  have frame: "snapshots (snd ?d) = snapshots s \<and> chain (snd ?d) = chain s \<and>
      active (snd ?d) = active s \<and> (\<forall>k. k \<noteq> ctrdCtr \<longrightarrow> containers (snd ?d) k = containers s k)"
    using deleteCtrdContainer_frame[of s ctrdCtr dmn ident "fst ?d" "snd ?d"] by simp
  have gone: "fails s = no_faults \<longrightarrow> containers (snd ?d) ?key = None"
  proof
    assume nf: "fails s = no_faults"
    from ex obtain c where c: "containers s ctrdCtr = Some c" using h by auto
    show "containers (snd ?d) ?key = None"
      using deleteCtrdContainer_ok[OF nf c] h by simp
  qed
  show ?thesis using run frame gone h by simp
qed

theorem getContainer_no_active_snapshot_witness:
  "client_LoadContainer backend0 (composeCtrdID dom0 id0) = Inr key0 \<and>
   getGeneration backend0 key0 = Inr gen0 \<and> getUID backend0 key0 = Inr 1000 \<and>
   getActiveSnapshot backend0 dom0 id0 = Inl (NotFound ''snapshot'' (composeCtrdID dom0 id0)) \<and>
   fst (getContainer backend0 dom0 id0 gen0) = Inl (NotFound ''container'' (composeCtrdID dom0 id0)) \<and>
   containers (snd (getContainer backend0 dom0 id0 gen0)) (composeCtrdID dom0 id0) = None"
proof -
  have nf: "fails backend0 = no_faults" by (simp add: backend0_def)
  have e: "is_ErrNotFound (NotFound ''snapshot'' (composeCtrdID dom0 id0))" by simp
  from getContainer_no_active_snapshot[OF backend0_load backend0_generation backend0_uid
      backend0_no_snapshot e]
  show ?thesis
    using nf backend0_load backend0_generation backend0_uid backend0_no_snapshot by auto
qed

text \<open>
  C2 as stated fails: a container whose generation label matches but which has no uid
  label is not torn down when its active snapshot is missing; \<open>getContainer\<close> returns a
  runtime error from \<open>getUID\<close> and the container stays.
\<close>

theorem getContainer_no_active_snapshot_counterexample:
  "client_LoadContainer backend_nouid (composeCtrdID dom0 id0) = Inr key0 \<and>
   getGeneration backend_nouid key0 = Inr gen0 \<and>
   getActiveSnapshot backend_nouid dom0 id0 = Inl (NotFound ''snapshot'' (composeCtrdID dom0 id0)) \<and>
   getContainer backend_nouid dom0 id0 gen0 = (Inl (RuntimeError ''invalid uid label''), backend_nouid) \<and>
   containers backend_nouid key0 \<noteq> None"
proof -
  have l: "client_LoadContainer backend_nouid (composeCtrdID dom0 id0) = Inr key0"
    by (simp add: client_LoadContainer_def backend_nouid_def backend0_def no_faults_def key0_def)
  have g: "getGeneration backend_nouid key0 = Inr gen0"
    by (rule getGeneration_ok[where c = "ctrd0\<lparr>c_labels := [containerdGenerationLabel \<mapsto> hex_EncodeToString gen0]\<rparr>"])
       (simp_all add: backend_nouid_def backend0_def no_faults_def sample_lengths)
  have u: "getUID backend_nouid key0 = Inl (RuntimeError ''invalid uid label'')"
    by (simp add: getUID_def container_Labels_def backend_nouid_def backend0_def no_faults_def
        label_of_def containerdUIDLabel_def containerdGenerationLabel_def strconv_ParseUint32_def)
  have a: "getActiveSnapshot backend_nouid dom0 id0 =
      Inl (NotFound ''snapshot'' (composeCtrdID dom0 id0))"
    by (simp add: getActiveSnapshot_def backend_nouid_def backend0_def no_faults_def Let_def)
  have r: "getContainer backend_nouid dom0 id0 gen0 =
      (Inl (RuntimeError ''invalid uid label''), backend_nouid)"
    by (simp add: getContainer_def l g u)
  have "containers backend_nouid key0 \<noteq> None"
    by (simp add: backend_nouid_def backend0_def)
  with l g a r show ?thesis by simp
qed

lemma Create_new_ok:
  assumes "fails s = no_faults" and "containers s (composeCtrdID (domain ctr) (id' ctr)) = None"
  shows "\<exists>sp ctr'. Create_new s ctr =
           (Inr (),
            s\<lparr>containers := (containers s)(composeCtrdID (domain ctr) (id' ctr) \<mapsto>
               \<lparr>c_labels = [containerdGenerationLabel \<mapsto> hex_EncodeToString (generation ctr),
                             containerdUIDLabel \<mapsto> strconv_FormatUint (unat (uid ctr))],
                c_image = image' ctr, c_spec = sp,
                c_runtime = ''io.containerd.runtime.v1.linux'', c_task = None\<rparr>)\<rparr>,
            ctr') \<and>
           ctrdContainer ctr' = Some (composeCtrdID (domain ctr) (id' ctr))"
proof -
  have cfg: "image_Config s (image' ctr) = Inr (config (image' ctr))"
    using assms(1) by (simp add: image_Config_def no_faults_def)
  have new: "\<And>sp. client_NewContainer s (composeCtrdID (domain ctr) (id' ctr)) (image' ctr) sp
        ''io.containerd.runtime.v1.linux''
        [containerdGenerationLabel \<mapsto> hex_EncodeToString (generation ctr),
         containerdUIDLabel \<mapsto> strconv_FormatUint (unat (uid ctr))] =
      (Inr (composeCtrdID (domain ctr) (id' ctr)),
       s\<lparr>containers := (containers s)(composeCtrdID (domain ctr) (id' ctr) \<mapsto>
               \<lparr>c_labels = [containerdGenerationLabel \<mapsto> hex_EncodeToString (generation ctr),
                             containerdUIDLabel \<mapsto> strconv_FormatUint (unat (uid ctr))],
                c_image = image' ctr, c_spec = sp,
                c_runtime = ''io.containerd.runtime.v1.linux'', c_task = None\<rparr>)\<rparr>)"
    using assms by (simp add: client_NewContainer_def no_faults_def)
  show ?thesis
    unfolding Create_new_def Let_def cfg sum.case new prod.case
    by (intro exI conjI) (rule refl, simp)
qed

text \<open>
  C3. On a backend that answers every call and has a container under the key of \<open>ctr\<close>:
  if the container's generation label equals the hex text of \<open>ctr\<close>'s generation,
  \<open>Create\<close> fails with \<open>AlreadyExists\<close> and the backend is unchanged; otherwise the old
  container's task and backend object are deleted first (the snapshot store untouched)
  and a new container is created under the key, with exactly the generation label of
  \<open>ctr\<close> and the uid label, and no task.
\<close>

theorem Create_existing:
  assumes "fails s = no_faults"
    and "containers s (composeCtrdID (domain ctr) (id' ctr)) = Some c"
  shows "(label_of (c_labels c) containerdGenerationLabel = hex_EncodeToString (generation ctr) \<longrightarrow>
            Create s ctr =
              (Inl (AlreadyExists ''container'' (composeCtrdID (domain ctr) (id' ctr))), s,
               ctr\<lparr>ctrdContainer := Some (composeCtrdID (domain ctr) (id' ctr))\<rparr>)) \<and>
         (label_of (c_labels c) containerdGenerationLabel \<noteq> hex_EncodeToString (generation ctr) \<longrightarrow>
            (\<exists>s1 s' ctr' c'.
               deleteCtrdContainer s (composeCtrdID (domain ctr) (id' ctr)) (domain ctr) (id' ctr) False
                 = (Inr (), s1) \<and>
               containers s1 (composeCtrdID (domain ctr) (id' ctr)) = None \<and>
               Create s ctr = (Inr (), s', ctr') \<and>
               containers s' (composeCtrdID (domain ctr) (id' ctr)) = Some c' \<and>
               c_labels c' = [containerdGenerationLabel \<mapsto> hex_EncodeToString (generation ctr),
                              containerdUIDLabel \<mapsto> strconv_FormatUint (unat (uid ctr))] \<and>
               c_image c' = image' ctr \<and> c_task c' = None \<and>
               ctrdContainer ctr' = Some (composeCtrdID (domain ctr) (id' ctr)) \<and>
               snapshots s' = snapshots s \<and> chain s' = chain s \<and> active s' = active s \<and>
               (\<forall>k. k \<noteq> composeCtrdID (domain ctr) (id' ctr) \<longrightarrow> containers s' k = containers s k)))"
proof -
  let ?key = "composeCtrdID (domain ctr) (id' ctr)"
  let ?ctr1 = "ctr\<lparr>ctrdContainer := Some ?key\<rparr>"
  have load: "client_LoadContainer s ?key = Inr ?key"
    using assms by (simp add: client_LoadContainer_def no_faults_def)
  have labels: "container_Labels s ?key = Inr (c_labels c)"
    using assms by (simp add: container_Labels_def no_faults_def)
  have same: "label_of (c_labels c) containerdGenerationLabel = hex_EncodeToString (generation ctr) \<longrightarrow>
      Create s ctr = (Inl (AlreadyExists ''container'' ?key), s, ?ctr1)"
    by (simp add: Create_def Let_def load labels)
  let ?s1 = "s\<lparr>containers := (containers s)(?key := None)\<rparr>"
  have del: "deleteCtrdContainer s ?key (domain ctr) (id' ctr) False = (Inr (), ?s1)"
    by (rule deleteCtrdContainer_ok[OF assms])
  have nf1: "fails ?s1 = no_faults" using assms(1) by simp
  have free: "containers ?s1 (composeCtrdID (domain ?ctr1) (id' ?ctr1)) = None" by simp
  from Create_new_ok[OF nf1 free]
  obtain sp ctr' where new: "Create_new ?s1 ?ctr1 =
           (Inr (),
            ?s1\<lparr>containers := (containers ?s1)(?key \<mapsto>
               \<lparr>c_labels = [containerdGenerationLabel \<mapsto> hex_EncodeToString (generation ctr),
                             containerdUIDLabel \<mapsto> strconv_FormatUint (unat (uid ctr))],
                c_image = image' ctr, c_spec = sp,
                c_runtime = ''io.containerd.runtime.v1.linux'', c_task = None\<rparr>)\<rparr>,
            ctr')"
    and ctr': "ctrdContainer ctr' = Some ?key"
    by auto
  have diff: "label_of (c_labels c) containerdGenerationLabel \<noteq> hex_EncodeToString (generation ctr) \<Longrightarrow>
      Create s ctr = (Inr (),
            ?s1\<lparr>containers := (containers ?s1)(?key \<mapsto>
               \<lparr>c_labels = [containerdGenerationLabel \<mapsto> hex_EncodeToString (generation ctr),
                             containerdUIDLabel \<mapsto> strconv_FormatUint (unat (uid ctr))],
                c_image = image' ctr, c_spec = sp,
                c_runtime = ''io.containerd.runtime.v1.linux'', c_task = None\<rparr>)\<rparr>,
            ctr')"
    by (simp add: Create_def Let_def load labels del new)
  show ?thesis
    using same del diff ctr' by auto
qed

theorem Create_existing_witness:
  "fails backend0 = no_faults \<and>
   containers backend0 (composeCtrdID (domain ctr0) (id' ctr0)) = Some ctrd0 \<and>
   containers backend0 (composeCtrdID (domain ctr1) (id' ctr1)) = Some ctrd0 \<and>
   Create backend0 ctr0 = (Inl (AlreadyExists ''container'' key0), backend0, ctr0) \<and>
   fst (Create backend0 ctr1) = Inr () \<and>
   (\<exists>c'. containers (fst (snd (Create backend0 ctr1))) key0 = Some c' \<and>
         c_labels c' = [containerdGenerationLabel \<mapsto> hex_EncodeToString gen1,
                        containerdUIDLabel \<mapsto> strconv_FormatUint (unat (uid ctr1))] \<and>
         c_task c' = None)"
proof -
  have nf: "fails backend0 = no_faults" by (simp add: backend0_def)
  have k0: "composeCtrdID (domain ctr0) (id' ctr0) = key0"
    and k1: "composeCtrdID (domain ctr1) (id' ctr1) = key0"
    by (simp_all add: ctr0_def ctr1_def key0_def)
  have c0: "containers backend0 (composeCtrdID (domain ctr0) (id' ctr0)) = Some ctrd0"
    and c1: "containers backend0 (composeCtrdID (domain ctr1) (id' ctr1)) = Some ctrd0"
    by (simp_all add: k0 k1 backend0_def)
  have lab: "label_of (c_labels ctrd0) containerdGenerationLabel = hex_EncodeToString gen0"
    by (simp add: ctrd0_def label_of_def containerdUIDLabel_def containerdGenerationLabel_def)
  have same: "label_of (c_labels ctrd0) containerdGenerationLabel = hex_EncodeToString (generation ctr0)"
    using lab by (simp add: ctr0_def)
  have diff: "label_of (c_labels ctrd0) containerdGenerationLabel \<noteq> hex_EncodeToString (generation ctr1)"
    using lab sample_lengths(3) hex_encode_inj[of gen0 gen1] by (auto simp: ctr1_def)
  have keep: "ctr0\<lparr>ctrdContainer := Some key0\<rparr> = ctr0"
    by (simp add: ctr0_def)
  have g1: "generation ctr1 = gen1" by (simp add: ctr1_def)
  from Create_existing[OF nf c0] same keep
  have r0: "Create backend0 ctr0 = (Inl (AlreadyExists ''container'' key0), backend0, ctr0)"
    by (simp add: k0)
  from Create_existing[OF nf c1] diff
  obtain s' ctr' c' where "Create backend0 ctr1 = (Inr (), s', ctr')"
    and "containers s' key0 = Some c'"
    and "c_labels c' = [containerdGenerationLabel \<mapsto> hex_EncodeToString gen1,
                        containerdUIDLabel \<mapsto> strconv_FormatUint (unat (uid ctr1))]"
    and "c_task c' = None"
    unfolding k1 g1 by blast
  then show ?thesis using nf c0 c1 r0 by auto
qed

text \<open>
  C6, as the code has it. Deleting a task that is absent or already stopped returns
  success. \<open>Delete\<close> is not idempotent: on a backend that answers every call, a
  \<open>Delete\<close> of an existing container succeeds and removes it, and the \<open>Delete\<close> that
  follows returns the backend's not-found error for the container object and changes
  nothing; \<open>deleteContainer\<close> by key returns \<open>NotFound\<close> for an absent container.
\<close>

theorem Delete_twice:
  assumes "fails s = no_faults" and "ctrdContainer ctr = Some h" and "containers s h = Some c"
  shows "(\<exists>s1. Delete s ctr = (Inr (), s1) \<and> containers s1 h = None \<and>
               Delete s1 ctr = (Inl (Backend CtrdNotFound), s1)) \<and>
         (c_task c = None \<longrightarrow> deleteCtrdTask s h = (Inr (), s)) \<and>
         (\<forall>t. c_task c = Some t \<and> t_status t = Stopped \<longrightarrow>
               deleteCtrdTask s h = (Inr (), set_task s h None)) \<and>
         (containers s (composeCtrdID dmn ident) = None \<longrightarrow>
            deleteContainer s dmn ident False =
              (Inl (NotFound ''container'' (composeCtrdID dmn ident)), s))"
proof -
  let ?s1 = "s\<lparr>containers := (containers s)(h := None)\<rparr>"
  have d1: "Delete s ctr = (Inr (), ?s1)"
    using deleteCtrdContainer_ok[OF assms(1,3)] assms(2) by (simp add: Delete_def)
  have nf1: "fails ?s1 = no_faults" using assms(1) by simp
  have d2: "Delete ?s1 ctr = (Inl (Backend CtrdNotFound), ?s1)"
    using deleteCtrdContainer_gone[OF nf1, of h] assms(2) by (simp add: Delete_def)
  have t: "deleteCtrdTask s h = (Inr (), set_task s h None)"
    using deleteCtrdTask_ok[OF assms(1,3)] assms(3) by (simp add: set_task_def)
  have t0: "c_task c = None \<longrightarrow> deleteCtrdTask s h = (Inr (), s)"
    using t set_task_same[OF assms(3), of None] by simp
  have k: "containers s (composeCtrdID dmn ident) = None \<longrightarrow>
            deleteContainer s dmn ident False =
              (Inl (NotFound ''container'' (composeCtrdID dmn ident)), s)"
    using assms(1)
    by (simp add: deleteContainer_def client_LoadContainer_def no_faults_def ctrderr_IsNotFound_def)
  show ?thesis using d1 d2 t t0 k by simp
qed

theorem Delete_twice_witness:
  "fails backend0 = no_faults \<and> ctrdContainer ctr0 = Some key0 \<and>
   containers backend0 key0 = Some ctrd0 \<and>
   fst (Delete backend0 ctr0) = Inr () \<and>
   containers (snd (Delete backend0 ctr0)) key0 = None \<and>
   fst (Delete (snd (Delete backend0 ctr0)) ctr0) = Inl (Backend CtrdNotFound)"
proof -
  have nf: "fails backend0 = no_faults" by (simp add: backend0_def)
  have h: "ctrdContainer ctr0 = Some key0" by (simp add: ctr0_def)
  have c: "containers backend0 key0 = Some ctrd0" by (simp add: backend0_def)
  from Delete_twice[OF nf h c, of dom0 id0]
  obtain s1 where "Delete backend0 ctr0 = (Inr (), s1)" and "containers s1 key0 = None"
    and "Delete s1 ctr0 = (Inl (Backend CtrdNotFound), s1)"
    by blast
  then show ?thesis using nf h c by simp
qed

text \<open>
  C6 as stated fails: the second of two \<open>Delete\<close> calls in a row returns an error.
\<close>

theorem Delete_twice_counterexample:
  "fst (Delete backend0 ctr0) = Inr () \<and>
   fst (Delete (snd (Delete backend0 ctr0)) ctr0) = Inl (Backend CtrdNotFound)"
proof -
  have nf: "fails backend0 = no_faults" by (simp add: backend0_def)
  have c: "containers backend0 key0 = Some ctrd0" by (simp add: backend0_def)
  let ?s1 = "backend0\<lparr>containers := (containers backend0)(key0 := None)\<rparr>"
  have d1: "Delete backend0 ctr0 = (Inr (), ?s1)"
    using deleteCtrdContainer_ok[OF nf c] by (simp add: Delete_def ctr0_def)
  have nf1: "fails ?s1 = no_faults" using nf by simp
  have d2: "Delete ?s1 ctr0 = (Inl (Backend CtrdNotFound), ?s1)"
    using deleteCtrdContainer_gone[OF nf1, of key0] by (simp add: Delete_def ctr0_def)
  show ?thesis by (simp add: d1 d2)
qed

lemma labels_differ: "containerdUIDLabel \<noteq> containerdGenerationLabel"
  by (simp add: containerdUIDLabel_def containerdGenerationLabel_def)

lemma map_add_same: "m ++ m = m"
  by (rule ext) (simp add: map_add_def split: option.splits)

lemma Commit_cases:
  assumes "Commit s ctr gen = (r, s', ctr')"
  shows "ctr' = ctr \<and>
    ((r \<noteq> Inr () \<and> s' = s) \<or>
     (r = Inr () \<and> (\<exists>h c. ctrdContainer ctr = Some h \<and> containers s h = Some c \<and>
        s' = s\<lparr>containers := (containers s)(h \<mapsto>
               c\<lparr>c_labels := (c_labels c)(containerdGenerationLabel \<mapsto> hex_EncodeToString gen)\<rparr>)\<rparr>)))"
  using assms
  by (auto simp: Commit_def container_Labels_def container_SetLabels_def map_add_same
      split: option.splits sum.splits if_splits prod.splits)

text \<open>
  C9. \<open>Commit\<close> leaves the in-memory container as it was, the generation that
  \<open>Generation\<close> reports included; in the backend only the container of \<open>ctr\<close> can
  change, and of it only the generation label: every other label (the uid label in
  particular), the image, the spec and the task keep their values. When \<open>Commit\<close>
  succeeds the generation label is the hex text of the new generation, when it fails the
  backend is unchanged, and on a backend that answers every call it succeeds.
\<close>

theorem Commit_frame:
  assumes "Commit s ctr gen = (r, s', ctr')"
  shows "ctr' = ctr \<and> Generation ctr' = Generation ctr \<and>
    snapshots s' = snapshots s \<and> chain s' = chain s \<and> active s' = active s \<and>
    (\<forall>k. ctrdContainer ctr \<noteq> Some k \<longrightarrow> containers s' k = containers s k) \<and>
    (\<forall>h. ctrdContainer ctr = Some h \<longrightarrow>
       (case containers s h of
          None \<Rightarrow> containers s' h = None \<and> r \<noteq> Inr ()
        | Some c \<Rightarrow>
            (\<exists>c'. containers s' h = Some c' \<and>
               c_image c' = c_image c \<and> c_spec c' = c_spec c \<and> c_runtime c' = c_runtime c \<and>
               c_task c' = c_task c \<and>
               (\<forall>l. l \<noteq> containerdGenerationLabel \<longrightarrow> c_labels c' l = c_labels c l) \<and>
               c_labels c' containerdUIDLabel = c_labels c containerdUIDLabel \<and>
               (r = Inr () \<longrightarrow>
                  c_labels c' containerdGenerationLabel = Some (hex_EncodeToString gen)) \<and>
               (r \<noteq> Inr () \<longrightarrow> c' = c) \<and>
               (fails s = no_faults \<longrightarrow> r = Inr ()))))"
proof -
  note cs = Commit_cases[OF assms]
  have tot: "\<And>h c. fails s = no_faults \<Longrightarrow> ctrdContainer ctr = Some h \<Longrightarrow>
      containers s h = Some c \<Longrightarrow> r = Inr ()"
    using assms
    by (auto simp: Commit_def container_Labels_def container_SetLabels_def no_faults_def
        split: option.splits sum.splits if_splits prod.splits)
  from cs have c1: "ctr' = ctr" by simp
  from cs consider (fail) "r \<noteq> Inr ()" "s' = s"
    | (ok) h c where "r = Inr ()" "ctrdContainer ctr = Some h" "containers s h = Some c"
        "s' = s\<lparr>containers := (containers s)(h \<mapsto>
               c\<lparr>c_labels := (c_labels c)(containerdGenerationLabel \<mapsto> hex_EncodeToString gen)\<rparr>)\<rparr>"
    by blast
  then show ?thesis
  proof cases
    case fail
    then show ?thesis using c1 tot by (auto split: option.splits)
  next
    case ok
    then show ?thesis using c1 labels_differ by (auto split: option.splits)
  qed
qed

theorem Commit_frame_witness:
  "fst (Commit backend0 ctr0 gen1) = Inr () \<and>
   snd (snd (Commit backend0 ctr0 gen1)) = ctr0 \<and>
   Generation (snd (snd (Commit backend0 ctr0 gen1))) = gen0 \<and>
   (\<exists>c'. containers (fst (snd (Commit backend0 ctr0 gen1))) key0 = Some c' \<and>
         c_labels c' containerdUIDLabel = Some ''1000'' \<and>
         c_labels c' containerdGenerationLabel = Some (hex_EncodeToString gen1) \<and>
         c_task c' = Some task0)"
proof -
  let ?r = "Commit backend0 ctr0 gen1"
  have run: "?r = (fst ?r, fst (snd ?r), snd (snd ?r))" by simp
  have nf: "fails backend0 = no_faults" by (simp add: backend0_def)
  have h: "ctrdContainer ctr0 = Some key0" by (simp add: ctr0_def)
  have c: "containers backend0 key0 = Some ctrd0" by (simp add: backend0_def)
  have g: "Generation ctr0 = gen0" by (simp add: Generation_def ctr0_def)
  have u: "c_labels ctrd0 containerdUIDLabel = Some ''1000''" "c_task ctrd0 = Some task0"
    by (simp_all add: ctrd0_def)
  from Commit_frame[OF run] h c
  have "snd (snd ?r) = ctr0 \<and> Generation (snd (snd ?r)) = Generation ctr0 \<and>
     (\<exists>c'. containers (fst (snd ?r)) key0 = Some c' \<and> c_task c' = c_task ctrd0 \<and>
        c_labels c' containerdUIDLabel = c_labels ctrd0 containerdUIDLabel \<and>
        (fst ?r = Inr () \<longrightarrow> c_labels c' containerdGenerationLabel = Some (hex_EncodeToString gen1)) \<and>
        (fails backend0 = no_faults \<longrightarrow> fst ?r = Inr ()))"
    by (auto split: option.splits)
  then show ?thesis using nf g u by auto
qed

section \<open>Properties of process execution\<close>

text \<open>
  What \<open>Exec\<close> returns when the start call fails: a backend not-found becomes a runtime
  error, every other start error becomes \<open>NotFound\<close> naming the command.
\<close>

lemma Exec_start_error:
  assumes "ctrdContainer ctr = Some h" and "container_Task s h = Inr t"
    and "task_Exec s t execID procSpec = (Inr p, s2)"
    and "process_Start s2 p = (Inl e, s3)"
    and "Args procSpec = a # as"
  shows "Exec s ctr strm execID procSpec =
           (if e = CtrdNotFound then Inl (RuntimeError ''starting process failed'')
            else Inl (NotFound ''command'' a), s3, ctr)"
  using assms by (simp add: Exec_def ctrderr_IsNotFound_def)

text \<open>
  C7 at two inputs: a start call that reports not-found gives the runtime error
  "starting process failed", and a start call that fails for another reason (the daemon
  is unavailable) gives \<open>NotFound\<close> naming the command.
\<close>

theorem Exec_start_classification:
  "fst (Exec backend_exec ctr0 \<lparr>Terminal = False\<rparr> ''exec-1''
          \<lparr>Args = [''/no/such/cmd''], Cwd = ''/''\<rparr>)
     = Inl (RuntimeError ''starting process failed'') \<and>
   fst (Exec backend_exec ctr0 \<lparr>Terminal = False\<rparr> ''exec-2''
          \<lparr>Args = [''/bin/locked''], Cwd = ''/''\<rparr>)
     = Inl (NotFound ''command'' ''/bin/locked'')"
  by (simp add: Exec_def ctr0_def backend_exec_def backend0_def no_faults_def container_Task_def
      task_Exec_def process_Start_def the_task_def set_task_def ctrd0_def task0_def
      ctrderr_IsNotFound_def)

section \<open>Properties of the snapshot enumeration\<close>

lemma parents_snoc:
  "parents (xs @ [x]) = (if Parent x \<noteq> [] then insert (Parent x) (parents xs) else parents xs)"
  by (auto simp: parents_def)

lemma is_true_update: "is_true (AList.update p True m) k = (k = p \<or> is_true m k)"
  by (simp add: is_true_def update_conv')

lemma update_key_set: "fst ` set (AList.update k v al) = insert k (fst ` set al)"
  by (induction al) auto

lemma walk_fn_inv:
  assumes "walk_inv xs st" and "distinct (map Name (xs @ [x]))"
  shows "walk_inv (xs @ [x]) (walk_fn st x)"
proof -
  obtain m p where st: "st = (m, p)" by (cases st)
  have new: "\<And>i. i \<in> set xs \<Longrightarrow> Name i \<noteq> Name x"
    using assms(2) by (auto simp: image_iff)
  from assms(1) have d: "distinct (map fst m)"
    and t: "\<And>k. is_true p k = (k \<in> parents xs)"
    and k: "set (map fst p) = parents xs"
    and c: "\<And>n i. map_of m n = Some i \<Longrightarrow> i \<in> set xs \<and> Name i = n"
    and e: "\<And>i. i \<in> set xs \<Longrightarrow> Name i \<notin> parents xs \<Longrightarrow> map_of m (Name i) = Some i"
    unfolding walk_inv_def st by simp_all
  let ?m' = "if \<not> is_true p (Name x) then AList.update (Name x) x m else m"
  let ?p' = "if Parent x \<noteq> [] then AList.update (Parent x) True p else p"
  have w: "walk_fn st x = (?m', ?p')"
    by (simp add: walk_fn_def st Let_def)
  have d': "distinct (map fst ?m')"
    using d by (simp add: distinct_update)
  have t': "\<And>k. is_true ?p' k = (k \<in> parents (xs @ [x]))"
    using t by (simp add: parents_snoc is_true_update)
  have k': "set (map fst ?p') = parents (xs @ [x])"
    using k by (simp add: parents_snoc update_key_set)
  have c': "\<And>n i. map_of ?m' n = Some i \<Longrightarrow> i \<in> set (xs @ [x]) \<and> Name i = n"
    using c by (auto simp: update_conv' split: if_splits)
  have e': "\<And>i. i \<in> set (xs @ [x]) \<Longrightarrow> Name i \<notin> parents (xs @ [x]) \<Longrightarrow>
      map_of ?m' (Name i) = Some i"
  proof -
    fix i assume i: "i \<in> set (xs @ [x])" and n: "Name i \<notin> parents (xs @ [x])"
    have np: "Name i \<notin> parents xs"
      using n by (simp add: parents_snoc split: if_splits)
    show "map_of ?m' (Name i) = Some i"
    proof (cases "i = x")
      case True
      then show ?thesis using np t by (simp add: update_conv')
    next
      case False
      then have ix: "i \<in> set xs" using i by simp
      then show ?thesis using e[OF ix np] new[OF ix] by (simp add: update_conv')
    qed
  qed
  show ?thesis
    unfolding walk_inv_def w fst_conv snd_conv
  proof (intro conjI allI ballI impI)
    show "distinct (map fst ?m')" by (rule d')
    show "\<And>k. is_true ?p' k = (k \<in> parents (xs @ [x]))" by (rule t')
    show "set (map fst ?p') = parents (xs @ [x])" by (rule k')
    show "\<And>n i. map_of ?m' n = Some i \<Longrightarrow> i \<in> set (xs @ [x])" using c' by blast
    show "\<And>n i. map_of ?m' n = Some i \<Longrightarrow> Name i = n" using c' by blast
    show "\<And>i. i \<in> set (xs @ [x]) \<Longrightarrow> Name i \<notin> parents (xs @ [x]) \<Longrightarrow>
      map_of ?m' (Name i) = Some i" by (rule e')
  qed
qed

lemma walk_inv:
  "distinct (map Name xs) \<Longrightarrow> walk_inv xs (foldl walk_fn ([], []) xs)"
proof (induction xs rule: rev_induct)
  case Nil
  show ?case by (simp add: walk_inv_def parents_def is_true_def)
next
  case (snoc x xs)
  then have "walk_inv xs (foldl walk_fn ([], []) xs)" by simp
  from walk_fn_inv[OF this snoc.prems] show ?case by simp
qed

lemma drop_parent_map_of: "map_of (drop_parent m p) = (map_of m)(p := None)"
  by (auto simp: drop_parent_def delete_conv' fun_eq_iff)

lemma drop_parent_distinct: "distinct (map fst m) \<Longrightarrow> distinct (map fst (drop_parent m p))"
  by (simp add: drop_parent_def distinct_delete)

lemma drop_parents:
  "distinct (map fst m) \<Longrightarrow>
     distinct (map fst (foldl drop_parent m ps)) \<and>
     map_of (foldl drop_parent m ps) = (\<lambda>k. if k \<in> set ps then None else map_of m k)"
proof (induction ps arbitrary: m)
  case Nil
  then show ?case by simp
next
  case (Cons p ps)
  from Cons.IH[OF drop_parent_distinct[OF Cons.prems, of p]]
  show ?case by (auto simp: drop_parent_map_of fun_eq_iff)
qed

text \<open>
  The leaves: when the walk succeeds over snapshots with different names, \<open>Snapshots\<close>
  returns exactly the snapshots of the store, of whatever domain, whose name is no
  snapshot's parent.
\<close>

lemma Snapshots_leaves:
  assumes "\<not> fails s WalkCall" and "distinct (map Name (snapshots s))"
  shows "\<exists>snaps. Snapshots s dmn = Inr snaps \<and>
           set snaps = {i \<in> set (snapshots s). Name i \<notin> parents (snapshots s)}"
proof -
  let ?infos = "snapshots s"
  let ?st = "foldl walk_fn ([], []) ?infos"
  let ?m = "foldl drop_parent (fst ?st) (map fst (snd ?st))"
  have inv: "walk_inv ?infos ?st" by (rule walk_inv[OF assms(2)])
  then have dist: "distinct (map fst (fst ?st))" by (simp add: walk_inv_def)
  note dp = drop_parents[OF dist, of "map fst (snd ?st)"]
  have keys: "set (map fst (snd ?st)) = parents ?infos"
    using inv by (simp add: walk_inv_def)
  have mo: "map_of ?m = (\<lambda>k. if k \<in> parents ?infos then None else map_of (fst ?st) k)"
    using dp keys by simp
  have "distinct (map fst ?m)" using dp by simp
  then have "ran (map_of ?m) = snd ` set ?m" by (rule ran_distinct)
  then have "set (map snd ?m) = ran (map_of ?m)"
    by simp
  also have "\<dots> = {i \<in> set ?infos. Name i \<notin> parents ?infos}"
  proof -
    from inv have c: "\<And>n i. map_of (fst ?st) n = Some i \<Longrightarrow> i \<in> set ?infos \<and> Name i = n"
      and e: "\<And>i. i \<in> set ?infos \<Longrightarrow> Name i \<notin> parents ?infos \<Longrightarrow>
          map_of (fst ?st) (Name i) = Some i"
      unfolding walk_inv_def by blast+
    show ?thesis
    proof (intro set_eqI iffI)
      fix i assume "i \<in> ran (map_of ?m)"
      then obtain n where "map_of ?m n = Some i" by (auto simp: ran_def)
      then have "n \<notin> parents ?infos" and "map_of (fst ?st) n = Some i"
        unfolding mo by (simp_all split: if_splits)
      with c[of n i] show "i \<in> {i \<in> set ?infos. Name i \<notin> parents ?infos}" by simp
    next
      fix i assume "i \<in> {i \<in> set ?infos. Name i \<notin> parents ?infos}"
      then have i: "i \<in> set ?infos" and n: "Name i \<notin> parents ?infos" by simp_all
      have "map_of ?m (Name i) = Some i"
        unfolding mo using e[OF i n] n by simp
      then show "i \<in> ran (map_of ?m)" by (auto simp: ran_def)
    qed
  qed
  finally have "set (map snd ?m) = {i \<in> set ?infos. Name i \<notin> parents ?infos}" .
  moreover have "Snapshots s dmn = Inr (map snd ?m)"
    using assms(1) by (simp add: Snapshots_def snapshots_Walk_def Let_def)
  ultimately show ?thesis by blast
qed

lemma Snapshots_ignores_domain: "Snapshots s d1 = Snapshots s d2"
  by (simp add: Snapshots_def)

lemma keys_differ: "composeCtrdID dom1 id0 \<noteq> composeCtrdID dom0 id0"
  by (simp add: composeCtrdID_def dom0_def dom1_def hextable_def)

text \<open>
  C8 at one input: the leaf that belongs to the chain of a key of \<open>dom1\<close>, and not to
  that of \<open>dom0\<close>, is returned for \<open>dom0\<close>; both domains get the same two leaves.
\<close>

theorem Snapshots_other_domain:
  "dom1 \<noteq> dom0 \<and>
   Name snap_b \<in> set (chain backend_snaps (composeCtrdID dom1 id0)) \<and>
   Name snap_b \<notin> set (chain backend_snaps (composeCtrdID dom0 id0)) \<and>
   Snapshots backend_snaps dom0 = Inr [snap_a, snap_b] \<and>
   Snapshots backend_snaps dom1 = Inr [snap_a, snap_b]"
proof -
  have d: "dom1 \<noteq> dom0" by (simp add: dom0_def dom1_def)
  have c: "Name snap_b \<in> set (chain backend_snaps (composeCtrdID dom1 id0))"
      "Name snap_b \<notin> set (chain backend_snaps (composeCtrdID dom0 id0))"
    using keys_differ by (simp_all add: backend_snaps_def snap_b_def)
  have s: "\<And>dmn. Snapshots backend_snaps dmn = Inr [snap_a, snap_b]"
    by (simp add: Snapshots_def snapshots_Walk_def backend_snaps_def backend0_def no_faults_def
        walk_fn_def drop_parent_def is_true_def snap_a_def snap_b_def snap_base_def Let_def)
  show ?thesis using d c s by simp
qed

end
